theory Spec2Isabelle
  imports Complex_Main "HOL-Library.Word" "HOL-Library.Log_Nat"
begin

section \<open>JavaScript strings\<close>

text \<open>
  A JavaScript string is a sequence of UTF-16 code units. The text of an element is kept
  as a list of 16-bit words, so that \<open>length\<close> is JavaScript's \<open>.length\<close>. Attribute
  values, tag names and style values are kept as HOL strings (code units below 256),
  which is all the engine ever writes or compares them with.
\<close>

type_synonym jstext = "16 word list"

definition jsstr :: "string \<Rightarrow> jstext" where
  "jsstr s = map (\<lambda>c. of_nat (of_char c)) s"

text \<open>The characters matched by \<open>\s\<close> and removed by \<open>trim()\<close>: WhiteSpace and LineTerminator.\<close>

definition isSpace :: "16 word \<Rightarrow> bool" where
  "isSpace c = (c = 0x0009 \<or> c = 0x000A \<or> c = 0x000B \<or> c = 0x000C \<or> c = 0x000D
     \<or> c = 0x0020 \<or> c = 0x00A0 \<or> c = 0x1680 \<or> (0x2000 \<le> c \<and> c \<le> 0x200A)
     \<or> c = 0x2028 \<or> c = 0x2029 \<or> c = 0x202F \<or> c = 0x205F \<or> c = 0x3000 \<or> c = 0xFEFF)"

definition trim :: "jstext \<Rightarrow> jstext" where
  "trim s = rev (dropWhile isSpace (rev (dropWhile isSpace s)))"

text \<open>\<open>[0-9]\<close>\<close>

definition isDigit :: "16 word \<Rightarrow> bool" where
  "isDigit c = (0x0030 \<le> c \<and> c \<le> 0x0039)"

text \<open>
  \<open>arabicRegex\<close>: the character class of the ranges 0600-06FF, 0750-077F, 08A0-08FF,
  FB50-FDFF and FE70-FEFF, a test on one code unit.
\<close>

definition isArabic :: "16 word \<Rightarrow> bool" where
  "isArabic c = ((0x0600 \<le> c \<and> c \<le> 0x06FF) \<or> (0x0750 \<le> c \<and> c \<le> 0x077F)
     \<or> (0x08A0 \<le> c \<and> c \<le> 0x08FF) \<or> (0xFB50 \<le> c \<and> c \<le> 0xFDFF)
     \<or> (0xFE70 \<le> c \<and> c \<le> 0xFEFF))"

section \<open>JavaScript numbers\<close>

text \<open>
  A JavaScript number is an IEEE 754 double. A finite double is kept as the rational
  number it is; \<open>NaN\<close> and the two infinities are values of their own. Where this
  file gives a number by a rational that is not a double (a decimal literal of the
  source such as 0.01, a quotient), the engine's number is the nearest double:
  \<open>nearestDouble\<close> rounds to nearest, ties to the even significand, with 53 bits of
  significand, exponents from -1022 and subnormal numbers below; \<open>roundDouble\<close> adds
  the overflow to an infinity, from \<open>2^1024\<close> on (written \<open>(2^32)^32\<close>, which evaluates
  quickly). Every arithmetic operation of JavaScript is the exact operation followed
  by this rounding.
\<close>

datatype jsnum = NaN | PosInfinity | NegInfinity | Num rat

text \<open>
  For \<open>m > 0\<close>: the exponent \<open>e\<close> with \<open>2^e \<le> m < 2^(e+1)\<close>, found from the bit lengths
  of numerator and denominator, and not below -1022.
\<close>

definition exponentOf :: "rat \<Rightarrow> int" where
  "exponentOf m =
     (let e0 = bitlen (fst (quotient_of m)) - bitlen (snd (quotient_of m));
          e = (if 2 powi e0 \<le> m then e0 else e0 - 1)
      in max e (- 1022))"

definition roundHalfEven :: "rat \<Rightarrow> int" where
  "roundHalfEven q =
     (let f = \<lfloor>q\<rfloor>; d = q - of_int f
      in if d < 1 / 2 then f else if 1 / 2 < d then f + 1 else if even f then f else f + 1)"

definition nearestDouble :: "rat \<Rightarrow> rat" where
  "nearestDouble x =
     (if x = 0 then 0
      else (let ulp = 2 powi (exponentOf \<bar>x\<bar> - 52)
            in sgn x * of_int (roundHalfEven (\<bar>x\<bar> / ulp)) * ulp))"

definition roundDouble :: "rat \<Rightarrow> jsnum" where
  "roundDouble x =
     (let y = nearestDouble x
      in if (2 ^ 32) ^ 32 \<le> \<bar>y\<bar> then (if x < 0 then NegInfinity else PosInfinity)
         else Num y)"

section \<open>The classifier: calculateArabicRatio\<close>

text \<open>\<open>.replace(/\s+/g, "")\<close>: every run of whitespace is deleted, so every whitespace unit is.\<close>

definition removeWhitespace :: "jstext \<Rightarrow> jstext" where
  "removeWhitespace s = filter (\<lambda>c. \<not> isSpace c) s"

text \<open>
  \<open>ltrPreserveRegex = /[0-9]+|https?:\/\/[^\s]+|www\.[^\s]+/g\<close>. The three alternatives
  are tried in this order at each position. \<open>stripPrefix p s\<close> is the rest of \<open>s\<close> after
  the literal \<open>p\<close>; \<open>nonSpaceRun\<close> is the greedy \<open>[^\s]+\<close>, which needs one unit at least.
\<close>

definition stripPrefix :: "jstext \<Rightarrow> jstext \<Rightarrow> jstext option" where
  "stripPrefix p s = (if take (length p) s = p then Some (drop (length p) s) else None)"

definition nonSpaceRun :: "jstext \<Rightarrow> jstext option" where
  "nonSpaceRun s =
     (case s of
        [] \<Rightarrow> None
      | c # cs \<Rightarrow> if isSpace c then None else Some (dropWhile (\<lambda>x. \<not> isSpace x) cs))"

text \<open>
  \<open>https?:\/\/[^\s]+\<close>. The optional \<open>s\<close> is greedy; giving it back never helps, since the
  next literal is a colon.
\<close>

definition matchHttp :: "jstext \<Rightarrow> jstext option" where
  "matchHttp s =
     (case stripPrefix (jsstr ''http'') s of
        None \<Rightarrow> None
      | Some r1 \<Rightarrow>
          (case stripPrefix (jsstr ''://'')
                  (case r1 of [] \<Rightarrow> r1 | c # cs \<Rightarrow> if c = 0x0073 then cs else r1) of
             None \<Rightarrow> None
           | Some r3 \<Rightarrow> nonSpaceRun r3))"

definition matchWww :: "jstext \<Rightarrow> jstext option" where
  "matchWww s =
     (case stripPrefix (jsstr ''www.'') s of None \<Rightarrow> None | Some r \<Rightarrow> nonSpaceRun r)"

text \<open>\<open>.replace(ltrPreserveRegex, "")\<close>: scan from the left, delete each match, go on after it.\<close>

function stripLtr :: "jstext \<Rightarrow> jstext" where
  "stripLtr [] = []"
| "stripLtr (c # cs) =
     (if isDigit c then stripLtr (dropWhile isDigit cs)
      else (case matchHttp (c # cs) of
              Some rest \<Rightarrow> stripLtr rest
            | None \<Rightarrow>
                (case matchWww (c # cs) of
                   Some rest \<Rightarrow> stripLtr rest
                 | None \<Rightarrow> c # stripLtr cs)))"
  by pat_completeness auto
termination
proof (relation "measure length")
  have run: "length r < length s" if "nonSpaceRun s = Some r" for s r
    using that
    by (cases s) (auto simp: nonSpaceRun_def less_Suc_eq_le length_dropWhile_le split: if_splits)
  have pre: "length r \<le> length s" if "stripPrefix p s = Some r" for p s r
    using that by (auto simp: stripPrefix_def split: if_splits)
  have http: "length r < length s" if m: "matchHttp s = Some r" for s r
  proof -
    from m obtain r1 where r1: "stripPrefix (jsstr ''http'') s = Some r1"
      by (auto simp: matchHttp_def split: option.splits)
    define r2 where "r2 = (case r1 of [] \<Rightarrow> r1 | c # cs \<Rightarrow> if c = 0x0073 then cs else r1)"
    from m r1 obtain r3 where r3: "stripPrefix (jsstr ''://'') r2 = Some r3"
      and n: "nonSpaceRun r3 = Some r"
      by (auto simp: matchHttp_def r2_def split: option.splits)
    have "length r2 \<le> length r1"
      by (auto simp: r2_def split: list.splits)
    with pre [OF r1] pre [OF r3] run [OF n] show ?thesis
      by simp
  qed
  have www: "length r < length s" if "matchWww s = Some r" for s r
    using that by (auto simp: matchWww_def split: option.splits dest!: pre run)
  show "wf (measure length)"
    by simp
  show "(dropWhile isDigit cs, c # cs) \<in> measure length" for c :: "16 word" and cs
    by (simp add: less_Suc_eq_le length_dropWhile_le)
  show "(rest, c # cs) \<in> measure length" if "matchHttp (c # cs) = Some rest" for c cs rest
    using http [OF that] by simp
  show "(rest, c # cs) \<in> measure length" if "matchWww (c # cs) = Some rest" for c cs rest
    using www [OF that] by simp
  show "(cs, c # cs) \<in> measure length" for c :: "16 word" and cs
    by simp
qed

text \<open>
  \<open>.replace(/[^\p{L}]/gu, "")\<close>. With the \<open>u\<close> flag the string is read by code points: a
  high surrogate followed by a low surrogate is one code point, any other unit stands
  for itself. Every code point outside the Unicode category Letter is deleted. The
  category table belongs to the JavaScript engine, not to this program: it is the
  parameter \<open>L\<close>, a predicate on code points.
\<close>

definition isHighSurrogate :: "16 word \<Rightarrow> bool" where
  "isHighSurrogate c = (0xD800 \<le> c \<and> c \<le> 0xDBFF)"

definition isLowSurrogate :: "16 word \<Rightarrow> bool" where
  "isLowSurrogate c = (0xDC00 \<le> c \<and> c \<le> 0xDFFF)"

definition codePoint :: "16 word \<Rightarrow> 16 word \<Rightarrow> nat" where
  "codePoint hi lo = 0x10000 + (unat hi - 0xD800) * 0x400 + (unat lo - 0xDC00)"

fun keepLetters :: "(nat \<Rightarrow> bool) \<Rightarrow> jstext \<Rightarrow> jstext" where
  "keepLetters L [] = []"
| "keepLetters L [a] = (if L (unat a) then [a] else [])"
| "keepLetters L (a # b # cs) =
     (if isHighSurrogate a \<and> isLowSurrogate b
      then (if L (codePoint a b) then a # b # keepLetters L cs else keepLetters L cs)
      else (if L (unat a) then a # keepLetters L (b # cs) else keepLetters L (b # cs)))"

text \<open>
  The ratio is the quotient of two lengths, a division of doubles: the exact quotient,
  rounded. The \<open>try\<close> block has nothing to catch on a string argument.
\<close>

definition calculateArabicRatio :: "(nat \<Rightarrow> bool) \<Rightarrow> jstext \<Rightarrow> rat" where
  "calculateArabicRatio L text =
     (if text = [] \<or> length (trim text) = 0 then 0
      else (let cleanText = keepLetters L (stripLtr (removeWhitespace text))
            in if length cleanText = 0 then 0
               else nearestDouble
                      (of_nat (length (filter isArabic cleanText)) / of_nat (length cleanText))))"

text \<open>
  A sample of the Letter table for evaluating concrete texts: the Basic Latin letters
  and the letters of the Arabic block (U+0620..U+064A, U+066E..U+06D3 without U+0670).
\<close>

definition sampleLetters :: "nat \<Rightarrow> bool" where
  "sampleLetters cp = ((0x41 \<le> cp \<and> cp \<le> 0x5A) \<or> (0x61 \<le> cp \<and> cp \<le> 0x7A)
     \<or> (0x0620 \<le> cp \<and> cp \<le> 0x064A) \<or> (0x066E \<le> cp \<and> cp \<le> 0x066F)
     \<or> (0x0671 \<le> cp \<and> cp \<le> 0x06D3))"

section \<open>JavaScript numbers as text: toFixed and parseFloat\<close>

text \<open>
  \<open>toFixed(2)\<close> is modelled for numbers below \<open>10^21\<close> in magnitude, where JavaScript
  prints digits (the ratios of this program lie in [0, 1]).
\<close>

definition digitChar :: "nat \<Rightarrow> char" where
  "digitChar d =
     (if d = 0 then CHR ''0'' else if d = 1 then CHR ''1'' else if d = 2 then CHR ''2''
      else if d = 3 then CHR ''3'' else if d = 4 then CHR ''4'' else if d = 5 then CHR ''5''
      else if d = 6 then CHR ''6'' else if d = 7 then CHR ''7'' else if d = 8 then CHR ''8''
      else CHR ''9'')"

fun showNat :: "nat \<Rightarrow> string" where
  "showNat n = (if n < 10 then [digitChar n] else showNat (n div 10) @ [digitChar (n mod 10)])"

declare showNat.simps [simp del]

text \<open>
  \<open>x.toFixed(2)\<close> for the number \<open>x\<close>: with \<open>d\<close> the exact value of the double, the integer
  \<open>n\<close> nearest to \<open>100 * |d|\<close> (the larger one on a tie), printed with a point before its
  last two digits, after a minus sign when \<open>d < 0\<close>.
\<close>

definition toFixed2 :: "rat \<Rightarrow> string" where
  "toFixed2 x =
     (let d = nearestDouble x;
          n = nat \<lfloor>\<bar>d\<bar> * 100 + 1 / 2\<rfloor>;
          body = showNat (n div 100) @ ''.'' @ [digitChar (n div 10 mod 10), digitChar (n mod 10)]
      in if d < 0 then CHR ''-'' # body else body)"

definition isSpaceChar :: "char \<Rightarrow> bool" where
  "isSpaceChar c = (of_char c \<in> set [9, 10, 11, 12, 13, 32, 160 :: nat])"

definition isDigitChar :: "char \<Rightarrow> bool" where
  "isDigitChar c = (48 \<le> (of_char c :: nat) \<and> (of_char c :: nat) \<le> 57)"

definition digitsValue :: "string \<Rightarrow> nat" where
  "digitsValue ds = foldl (\<lambda>a c. 10 * a + (of_char c - 48)) 0 ds"

text \<open>A leading sign: whether it is a minus, and the rest.\<close>

definition takeSign :: "string \<Rightarrow> bool \<times> string" where
  "takeSign s =
     (case s of
        [] \<Rightarrow> (False, s)
      | c # cs \<Rightarrow> if c = CHR ''-'' then (True, cs) else if c = CHR ''+'' then (False, cs)
                 else (False, s))"

text \<open>The exponent part \<open>e\<close> or \<open>E\<close>, a sign, digits; it counts only when a digit follows.\<close>

definition exponentPart :: "string \<Rightarrow> int" where
  "exponentPart s =
     (case s of
        [] \<Rightarrow> 0
      | c # cs \<Rightarrow>
          if c = CHR ''e'' \<or> c = CHR ''E''
          then (let (neg, ds) = takeSign cs; digs = takeWhile isDigitChar ds
                in if digs = [] then 0
                   else if neg then - int (digitsValue digs) else int (digitsValue digs))
          else 0)"

text \<open>
  \<open>parseFloat\<close>: leading whitespace is skipped, then the longest prefix that is a decimal
  literal is read, and the result is the double nearest to its value (an infinity on
  overflow); \<open>NaN\<close> when there is no such prefix.
\<close>

definition parseFloat :: "string \<Rightarrow> jsnum" where
  "parseFloat s =
     (let (neg, s2) = takeSign (dropWhile isSpaceChar s)
      in if take 8 s2 = ''Infinity'' then (if neg then NegInfinity else PosInfinity)
         else (let ip = takeWhile isDigitChar s2;
                   r1 = dropWhile isDigitChar s2;
                   afterDot = (case r1 of [] \<Rightarrow> None
                               | c # cs \<Rightarrow> if c = CHR ''.'' then Some cs else None);
                   fp = (case afterDot of None \<Rightarrow> [] | Some cs \<Rightarrow> takeWhile isDigitChar cs);
                   r2 = (case afterDot of None \<Rightarrow> r1 | Some cs \<Rightarrow> dropWhile isDigitChar cs)
               in if ip = [] \<and> fp = [] then NaN
                  else roundDouble ((if neg then - 1 else 1)
                            * (of_nat (digitsValue ip) + of_nat (digitsValue fp) / 10 ^ length fp)
                            * 10 powi exponentPart r2)))"

text \<open>\<open>toLowerCase\<close> on the letters A to Z; no other character becomes one of \<open>l\<close>, \<open>t\<close>, \<open>r\<close>.\<close>

definition toLowerCase :: "string \<Rightarrow> string" where
  "toLowerCase s =
     map (\<lambda>c. case map_of (zip ''ABCDEFGHIJKLMNOPQRSTUVWXYZ'' ''abcdefghijklmnopqrstuvwxyz'') c of
                 None \<Rightarrow> c | Some l \<Rightarrow> l) s"

section \<open>Elements and the engine's state\<close>

text \<open>
  An element of the page, with the properties the engine reads or writes: its attributes
  (a map from names to values), its inline style, the text properties, and what
  \<open>isElementVisible\<close> looks at (\<open>offsetParent\<close> is whether that property is not null).
  \<open>tagName\<close> is what the JavaScript tests read (upper case for an HTML element);
  \<open>localName\<close> is what a type selector is matched against (lower case for an HTML
  element, as written for an SVG or XML element).
  The methods of the engine wrap their bodies in \<open>try\<close> blocks against exceptions of the
  DOM; the calls on this model of the DOM raise none, so the \<open>catch\<close> branches have no
  counterpart here.
\<close>

record cssStyle =
  direction :: string
  textAlign :: string
  unicodeBidi :: string
  transition :: string

record element =
  tagName :: string
  localName :: string
  isConnected :: bool
  attrs :: "string \<rightharpoonup> string"
  classList :: "string list"
  elValue :: jstext
  placeholder :: jstext
  textContent :: jstext
  innerText :: jstext
  style :: cssStyle
  offsetParent :: bool
  offsetHeight :: int
  offsetWidth :: int
  computedDisplay :: string
  computedVisibility :: string
  computedOpacity :: string

text \<open>
  \<open>this.config\<close>, and the \<open>options\<close> object of the constructor (\<open>None\<close>: the key is absent).
  A number of the configuration is kept as the value written for it (0.3 as 3/10); where
  the engine computes with it, it is the nearest double.
\<close>

record configuration =
  arabicThreshold :: rat
  debounceDelay :: rat
  enableVisualFeedback :: bool
  enableIframeHandling :: bool
  batchSize :: rat
  maxProcessingTime :: rat

record options =
  optArabicThreshold :: "rat option"
  optDebounceDelay :: "rat option"
  optEnableVisualFeedback :: "bool option"
  optEnableIframeHandling :: "bool option"
  optBatchSize :: "rat option"
  optMaxProcessingTime :: "rat option"

text \<open>
  A node named in a mutation record: an element (by its identity), or a node of another
  kind (a text node, say) with its \<open>parentElement\<close>.
\<close>

datatype domnode = ElementNode nat | OtherNode "nat option"

datatype mutation = ChildList "domnode list" | CharacterData domnode | Attributes domnode

datatype root = Document | Node nat

text \<open>
  The page and the engine. Elements are identified by numbers; \<open>elems\<close> is the store of
  the elements, \<open>docOrder\<close> the elements of \<open>document\<close> in tree order, \<open>subtree n\<close> the
  descendants of element \<open>n\<close> in tree order (the engine never changes the tree).
  \<open>processedElements\<close> is the WeakSet, \<open>textCache\<close> the WeakMap. \<open>debounceTimer\<close> holds
  the mutation batch that the pending timeout's closure has captured (\<open>None\<close>: no timeout
  is pending). \<open>rafQueue\<close> holds the callbacks given to \<open>requestAnimationFrame\<close> and not
  yet run: each is a \<open>processChunk\<close> closure, that is its \<open>elements\<close> and \<open>currentIndex\<close>.
\<close>

record world =
  elems :: "nat \<rightharpoonup> element"
  docOrder :: "nat list"
  subtree :: "nat \<Rightarrow> nat list"
  config :: configuration
  processedElements :: "nat set"
  textCache :: "nat \<rightharpoonup> jstext"
  debounceTimer :: "mutation list option"
  isEnabled :: bool
  isProcessing :: bool
  rafQueue :: "(nat list \<times> nat) list"

section \<open>The constructor's configuration\<close>

text \<open>
  \<open>this.config = { arabicThreshold: options.arabicThreshold || 0.3, ..., ...options }\<close>:
  first the defaults (\<open>||\<close> takes the default for an absent key and for 0), then the
  spread, which writes every key present in \<open>options\<close> over them.
\<close>

definition orDefault :: "rat option \<Rightarrow> rat \<Rightarrow> rat" where
  "orDefault v d = (case v of None \<Rightarrow> d | Some x \<Rightarrow> if x = 0 then d else x)"

definition notFalse :: "bool option \<Rightarrow> bool" where
  "notFalse v = (case v of None \<Rightarrow> True | Some b \<Rightarrow> b)"

definition spread :: "'a option \<Rightarrow> 'a \<Rightarrow> 'a" where
  "spread v d = (case v of None \<Rightarrow> d | Some x \<Rightarrow> x)"

definition makeConfig :: "options \<Rightarrow> configuration" where
  "makeConfig opts =
     \<lparr> arabicThreshold = spread (optArabicThreshold opts) (orDefault (optArabicThreshold opts) (3 / 10)),
       debounceDelay = spread (optDebounceDelay opts) (orDefault (optDebounceDelay opts) 150),
       enableVisualFeedback =
         spread (optEnableVisualFeedback opts) (notFalse (optEnableVisualFeedback opts)),
       enableIframeHandling =
         spread (optEnableIframeHandling opts) (notFalse (optEnableIframeHandling opts)),
       batchSize = spread (optBatchSize opts) (orDefault (optBatchSize opts) 30),
       maxProcessingTime = spread (optMaxProcessingTime opts) (orDefault (optMaxProcessingTime opts) 16) \<rparr>"

section \<open>Text extraction and styling\<close>

definition hasAttribute :: "element \<Rightarrow> string \<Rightarrow> bool" where
  "hasAttribute e k = (case attrs e k of None \<Rightarrow> False | Some v \<Rightarrow> True)"

text \<open>\<open>a || b\<close> on strings: the empty string is falsy.\<close>

definition orText :: "jstext \<Rightarrow> jstext \<Rightarrow> jstext" where
  "orText a b = (if a = [] then b else a)"

text \<open>
  \<open>getElementText\<close>: the text of the element by its kind (\<open>elementText\<close>), written into
  the cache and returned.
\<close>

definition elementText :: "element \<Rightarrow> jstext" where
  "elementText e =
     (if tagName e = ''INPUT'' \<or> tagName e = ''TEXTAREA''
      then orText (elValue e) [] @ jsstr '' '' @ orText (placeholder e) []
      else if hasAttribute e ''contenteditable''
      then orText (orText (textContent e) (innerText e)) []
      else orText (orText (textContent e) (innerText e)) [])"

definition getElementText :: "world \<Rightarrow> nat \<Rightarrow> element \<Rightarrow> jstext \<times> world" where
  "getElementText w n e =
     (let text = elementText e in (text, w\<lparr>textCache := (textCache w)(n \<mapsto> text)\<rparr>))"

definition getBestTextAlign :: "element \<Rightarrow> string" where
  "getBestTextAlign e =
     (if tagName e = ''BUTTON'' then ''center''
      else if tagName e \<in> set [''TD'', ''TH''] then ''inherit''
      else if tagName e = ''INPUT'' \<or> tagName e = ''TEXTAREA'' \<or> hasAttribute e ''contenteditable''
      then ''right''
      else ''right'')"

text \<open>The first guard of \<open>applyRTLStyles\<close>: an explicit \<open>dir="ltr"\<close>, in any letter case.\<close>

definition hasLtrOverride :: "element \<Rightarrow> bool" where
  "hasLtrOverride e =
     (case attrs e ''dir'' of None \<Rightarrow> False | Some d \<Rightarrow> toLowerCase d = ''ltr'')"

text \<open>
  \<open>Math.abs(a - b) < 0.01\<close> on numbers: the subtraction is rounded, \<open>0.01\<close> is the double
  nearest to 1/100, and a comparison with \<open>NaN\<close> or an infinity is false.
\<close>

definition differsByLessThan001 :: "jsnum \<Rightarrow> rat \<Rightarrow> bool" where
  "differsByLessThan001 a b =
     (case a of
        Num v \<Rightarrow>
          (case roundDouble (v - nearestDouble b) of
             Num d \<Rightarrow> \<bar>d\<bar> < nearestDouble (1 / 100)
           | NaN \<Rightarrow> False | PosInfinity \<Rightarrow> False | NegInfinity \<Rightarrow> False)
      | NaN \<Rightarrow> False | PosInfinity \<Rightarrow> False | NegInfinity \<Rightarrow> False)"

text \<open>
  The second guard: \<open>existingRatio && Math.abs(parseFloat(existingRatio) - arabicRatio) < 0.01\<close>.
\<close>

definition ratioAlreadyApplied :: "element \<Rightarrow> rat \<Rightarrow> bool" where
  "ratioAlreadyApplied e arabicRatio =
     (case attrs e ''data-arabic-ratio'' of
        None \<Rightarrow> False
      | Some existingRatio \<Rightarrow>
          (if existingRatio = [] then False
           else differsByLessThan001 (parseFloat existingRatio) arabicRatio))"

text \<open>The style object built by \<open>applyRTLStyles\<close>, assigned onto \<open>element.style\<close>.\<close>

definition assignStyles :: "configuration \<Rightarrow> element \<Rightarrow> rat \<Rightarrow> cssStyle" where
  "assignStyles cfg e arabicRatio =
     (let s1 = (style e)\<lparr> textAlign := getBestTextAlign e,
                 unicodeBidi := (if nearestDouble arabicRatio > nearestDouble (7 / 10)
                                 then ''bidi-override'' else ''plaintext'') \<rparr>;
          s2 = (if tagName e = ''DIV'' then s1
                else s1\<lparr> direction := ''rtl'', unicodeBidi := ''embed'', textAlign := ''right'' \<rparr>)
      in if enableVisualFeedback cfg then s2\<lparr> transition := ''all 0.3s ease'' \<rparr> else s2)"

definition applyRTLStyles :: "configuration \<Rightarrow> element \<Rightarrow> rat \<Rightarrow> element" where
  "applyRTLStyles cfg e arabicRatio =
     (if hasLtrOverride e then e
      else if ratioAlreadyApplied e arabicRatio then e
      else e\<lparr> style := assignStyles cfg e arabicRatio,
               attrs := (attrs e)(''data-rtl-applied'' \<mapsto> ''true'',
                                  ''data-arabic-ratio'' \<mapsto> toFixed2 arabicRatio) \<rparr>)"

text \<open>\<open>applyRTLStyles\<close> on the element \<open>n\<close> of the page.\<close>

definition applyAt :: "world \<Rightarrow> nat \<Rightarrow> rat \<Rightarrow> world" where
  "applyAt w n arabicRatio =
     (case elems w n of
        None \<Rightarrow> w
      | Some e \<Rightarrow> w\<lparr>elems := (elems w)(n \<mapsto> applyRTLStyles (config w) e arabicRatio)\<rparr>)"

section \<open>processElement\<close>

definition processElement :: "(nat \<Rightarrow> bool) \<Rightarrow> world \<Rightarrow> nat \<Rightarrow> world" where
  "processElement L w n =
     (case elems w n of
        None \<Rightarrow> w
      | Some element \<Rightarrow>
          if isConnected element
          then (let (text, w1) = getElementText w n element
                in if text = [] \<or> length (trim text) < 3 then w1
                   else (let arabicRatio = calculateArabicRatio L text;
                             w2 = (if tagName element \<in> set [''SPAN'', ''H1'', ''A'', ''P'']
                                      \<and> arabicRatio > 0
                                   then applyAt w1 n arabicRatio
                                   else if arabicRatio \<ge> nearestDouble (arabicThreshold (config w1))
                                   then applyAt w1 n arabicRatio
                                   else w1)
                         in w2\<lparr>processedElements := insert n (processedElements w2)\<rparr>))
          else w)"

section \<open>Target selection\<close>

text \<open>
  \<open>targetSelectors\<close> and \<open>skipSelectors\<close> as tests on one element. A type selector such
  as \<open>p\<close> is matched against the local name. The \<open>type\<close> attribute is compared without
  regard to letter case, as selectors do in HTML documents.
\<close>

definition sensitiveType :: "element \<Rightarrow> bool" where
  "sensitiveType e =
     (case attrs e ''type'' of
        None \<Rightarrow> False
      | Some t \<Rightarrow> toLowerCase t \<in> set [''password'', ''email'', ''url''])"

definition matchesTarget :: "element \<Rightarrow> bool" where
  "matchesTarget e =
     (localName e \<in> set [''p'', ''span'', ''h1'', ''h2'', ''h3'', ''h4'', ''h5'', ''h6'']
      \<or> (localName e = ''input'' \<and> \<not> sensitiveType e)
      \<or> localName e = ''textarea''
      \<or> attrs e ''contenteditable'' = Some ''true''
      \<or> attrs e ''contenteditable'' = Some []
      \<or> localName e \<in> set [''label'', ''button'', ''a'', ''li'', ''td'', ''th''])"

definition matchesSkip :: "element \<Rightarrow> bool" where
  "matchesSkip e =
     (localName e \<in> set [''code'', ''pre'', ''script'', ''style'', ''noscript'', ''div'']
      \<or> hasAttribute e ''data-rtl-skip''
      \<or> ''rtl-skip'' \<in> set (classList e)
      \<or> (localName e = ''input'' \<and> sensitiveType e))"

definition isElementVisible :: "element \<Rightarrow> bool" where
  "isElementVisible e =
     (if \<not> offsetParent e \<and> offsetHeight e = 0 \<and> offsetWidth e = 0 then False
      else computedDisplay e \<noteq> ''none'' \<and> computedVisibility e \<noteq> ''hidden''
           \<and> computedOpacity e \<noteq> ''0'')"

text \<open>\<open>root.querySelectorAll(selector)\<close>: the descendants of the root that match a target selector.\<close>

definition descendants :: "world \<Rightarrow> root \<Rightarrow> nat list" where
  "descendants w r = (case r of Document \<Rightarrow> docOrder w | Node n \<Rightarrow> subtree w n)"

definition querySelectorAllTargets :: "world \<Rightarrow> root \<Rightarrow> nat list" where
  "querySelectorAllTargets w r =
     filter (\<lambda>n. case elems w n of None \<Rightarrow> False | Some e \<Rightarrow> matchesTarget e) (descendants w r)"

text \<open>
  The callback of the \<open>filter\<close> in \<open>getTargetElements\<close>: whether the element is kept, and
  the state, since the call of \<open>getElementText\<close> writes the cache before the cache is read.
\<close>

definition keepElement :: "world \<Rightarrow> nat \<Rightarrow> bool \<times> world" where
  "keepElement w n =
     (case elems w n of
        None \<Rightarrow> (False, w)
      | Some el \<Rightarrow>
          if matchesSkip el then (False, w)
          else if \<not> isElementVisible el then (False, w)
          else if n \<in> processedElements w \<and> textCache w n \<noteq> None
          then (let (currentText, w1) = getElementText w n el;
                    cachedText = textCache w1 n
                in if Some currentText = cachedText then (False, w1) else (True, w1))
          else (True, w))"

fun filterElements :: "world \<Rightarrow> nat list \<Rightarrow> nat list \<times> world" where
  "filterElements w [] = ([], w)"
| "filterElements w (n # ns) =
     (let (keep, w1) = keepElement w n;
          (rest, w2) = filterElements w1 ns
      in (if keep then n # rest else rest, w2))"

definition getTargetElements :: "world \<Rightarrow> root \<Rightarrow> nat list \<times> world" where
  "getTargetElements w r = filterElements w (querySelectorAllTargets w r)"

section \<open>The batch scheduler\<close>

text \<open>
  \<open>processElementsBatch\<close> sets the flag and hands the first \<open>processChunk\<close> to
  \<open>requestAnimationFrame\<close>.
\<close>

definition processElementsBatch :: "world \<Rightarrow> nat list \<Rightarrow> world" where
  "processElementsBatch w elements =
     (if elements = [] \<or> isProcessing w then w
      else w\<lparr>isProcessing := True, rafQueue := rafQueue w @ [(elements, 0)]\<rparr>)"

text \<open>The body of the \<open>while\<close> loop: \<open>if (element && element.isConnected) processElement(element)\<close>.\<close>

definition processConnected :: "(nat \<Rightarrow> bool) \<Rightarrow> world \<Rightarrow> nat \<Rightarrow> world" where
  "processConnected L w n =
     (case elems w n of
        None \<Rightarrow> w
      | Some element \<Rightarrow> if isConnected element then processElement L w n else w)"

text \<open>
  One run of \<open>processChunk\<close>, one time slice. The loop goes on while elements remain and
  \<open>performance.now() - startTime < maxProcessingTime\<close>; \<open>clock\<close> is the number of times
  the clock lets that test pass in this slice. When elements remain the closure is
  given to \<open>requestAnimationFrame\<close> again, otherwise the flag is cleared.
\<close>

definition processChunk :: "(nat \<Rightarrow> bool) \<Rightarrow> nat \<Rightarrow> world \<Rightarrow> nat list \<times> nat \<Rightarrow> world" where
  "processChunk L clock w chunk =
     (let elements = fst chunk;
          currentIndex = snd chunk;
          slice = take clock (drop currentIndex elements);
          w1 = foldl (processConnected L) w slice;
          currentIndex1 = currentIndex + length slice
      in if currentIndex1 < length elements
         then w1\<lparr>rafQueue := rafQueue w1 @ [(elements, currentIndex1)]\<rparr>
         else w1\<lparr>isProcessing := False\<rparr>)"

definition scanDOM :: "world \<Rightarrow> root \<Rightarrow> world" where
  "scanDOM w r =
     (if \<not> isEnabled w \<or> isProcessing w then w
      else (let (elements, w1) = getTargetElements w r in processElementsBatch w1 elements))"

section \<open>The change watcher\<close>

text \<open>\<open>Set.add\<close>: insertion order, no element twice.\<close>

definition setAdd :: "nat list \<Rightarrow> nat \<Rightarrow> nat list" where
  "setAdd xs x = (if x \<in> set xs then xs else xs @ [x])"

text \<open>A changed element: its cache entry and its processed flag are dropped, and it is added.\<close>

fun invalidate :: "world \<times> nat list \<Rightarrow> nat \<Rightarrow> world \<times> nat list" where
  "invalidate (w, elementsToProcess) t =
     (w\<lparr>textCache := (textCache w)(t := None), processedElements := processedElements w - {t}\<rparr>,
      setAdd elementsToProcess t)"

fun addedNode :: "world \<times> nat list \<Rightarrow> domnode \<Rightarrow> world \<times> nat list" where
  "addedNode (w, elementsToProcess) (OtherNode p) = (w, elementsToProcess)"
| "addedNode (w, elementsToProcess) (ElementNode n) =
     (let (children, w1) = getTargetElements w (Node n)
      in (w1, foldl setAdd (setAdd elementsToProcess n) children))"

fun changedTarget :: "world \<times> nat list \<Rightarrow> domnode \<Rightarrow> world \<times> nat list" where
  "changedTarget acc (ElementNode n) = invalidate acc n"
| "changedTarget acc (OtherNode (Some parentElement)) = invalidate acc parentElement"
| "changedTarget acc (OtherNode None) = acc"

fun mutationStep :: "world \<times> nat list \<Rightarrow> mutation \<Rightarrow> world \<times> nat list" where
  "mutationStep acc (ChildList addedNodes) = foldl addedNode acc addedNodes"
| "mutationStep acc (CharacterData target) = changedTarget acc target"
| "mutationStep acc (Attributes target) = changedTarget acc target"

text \<open>The \<open>forEach\<close> of \<open>processMutations\<close>: the state and \<open>elementsToProcess\<close> after it.\<close>

definition collectMutations :: "world \<Rightarrow> mutation list \<Rightarrow> world \<times> nat list" where
  "collectMutations w mutations = foldl mutationStep (w, []) mutations"

definition processMutations :: "world \<Rightarrow> mutation list \<Rightarrow> world" where
  "processMutations w mutations =
     (let (w1, elementsToProcess) = collectMutations w mutations
      in if length elementsToProcess > 0 then processElementsBatch w1 elementsToProcess else w1)"

text \<open>
  \<open>handleMutations\<close>: the pending timeout is cleared and a new one is set, whose closure
  holds this call's \<open>mutations\<close>.
\<close>

definition handleMutations :: "world \<Rightarrow> mutation list \<Rightarrow> world" where
  "handleMutations w mutations =
     (if \<not> isEnabled w \<or> isProcessing w then w else w\<lparr>debounceTimer := Some mutations\<rparr>)"

text \<open>The debounce delay has elapsed: the pending timeout's callback runs.\<close>

definition timerFires :: "world \<Rightarrow> world" where
  "timerFires w =
     (case debounceTimer w of
        None \<Rightarrow> w
      | Some mutations \<Rightarrow> processMutations (w\<lparr>debounceTimer := None\<rparr>) mutations)"

section \<open>Enabling and disabling\<close>

definition removeRTL :: "world \<Rightarrow> nat \<Rightarrow> world" where
  "removeRTL w n =
     (case elems w n of
        None \<Rightarrow> w
      | Some element \<Rightarrow>
          w\<lparr> elems := (elems w)(n \<mapsto>
                 element\<lparr> style := (style element)\<lparr> direction := [], textAlign := [],
                                                    unicodeBidi := [], transition := [] \<rparr>,
                          attrs := (attrs element)(''data-rtl-applied'' := None,
                                                   ''data-arabic-ratio'' := None) \<rparr>),
             processedElements := processedElements w - {n},
             textCache := (textCache w)(n := None) \<rparr>)"

text \<open>\<open>document.querySelectorAll('[data-rtl-applied="true"]')\<close>\<close>

definition rtlElements :: "world \<Rightarrow> nat list" where
  "rtlElements w =
     filter (\<lambda>n. case elems w n of
                   None \<Rightarrow> False
                 | Some e \<Rightarrow> attrs e ''data-rtl-applied'' = Some ''true'') (docOrder w)"

definition removeAllRTLStyles :: "world \<Rightarrow> world" where
  "removeAllRTLStyles w = foldl removeRTL w (rtlElements w)"

definition enable :: "world \<Rightarrow> world" where
  "enable w = scanDOM (w\<lparr>isEnabled := True\<rparr>) Document"

definition disable :: "world \<Rightarrow> world" where
  "disable w =
     removeAllRTLStyles (w\<lparr>isEnabled := False, isProcessing := False, debounceTimer := None\<rparr>)"

text \<open>
  \<open>new ArabicRTLCorrector(options)\<close> on a page that has loaded: the fields of the
  constructor, then \<open>init\<close>, which scans the document. Subscribing the observer and
  creating the engines of same-origin iframes (separate instances, each on its own
  document) change nothing of this state.
\<close>

definition newCorrector ::
  "options \<Rightarrow> (nat \<rightharpoonup> element) \<Rightarrow> nat list \<Rightarrow> (nat \<Rightarrow> nat list) \<Rightarrow> world" where
  "newCorrector opts es order sub =
     scanDOM \<lparr> elems = es, docOrder = order, subtree = sub, config = makeConfig opts,
               processedElements = {}, textCache = Map.empty, debounceTimer = None,
               isEnabled = True, isProcessing = False, rafQueue = [] \<rparr> Document"

section \<open>The event loop\<close>

text \<open>
  What can happen to the engine, one event at a time (JavaScript runs each callback to
  its end): a call of \<open>scanDOM\<close>, \<open>enable\<close> or \<open>disable\<close>, a batch of mutation records
  delivered to \<open>handleMutations\<close>, the debounce timeout firing, and an animation frame
  running the oldest pending \<open>processChunk\<close> with what its clock allows.
\<close>

datatype event =
  ScanDOM root | Enable | Disable | HandleMutations "mutation list" | TimerFires
  | AnimationFrame nat

fun step :: "(nat \<Rightarrow> bool) \<Rightarrow> world \<Rightarrow> event \<Rightarrow> world" where
  "step L w (ScanDOM r) = scanDOM w r"
| "step L w Enable = enable w"
| "step L w Disable = disable w"
| "step L w (HandleMutations mutations) = handleMutations w mutations"
| "step L w TimerFires = timerFires w"
| "step L w (AnimationFrame clock) =
     (case rafQueue w of
        [] \<Rightarrow> w
      | chunk # rest \<Rightarrow> processChunk L clock (w\<lparr>rafQueue := rest\<rparr>) chunk)"

definition run :: "(nat \<Rightarrow> bool) \<Rightarrow> world \<Rightarrow> event list \<Rightarrow> world" where
  "run L w events = foldl (step L) w events"

section \<open>Sample data\<close>

text \<open>
  A visible, connected HTML element without attributes, an Arabic word of five letters
  (U+0645 U+0631 U+062D U+0628 U+0627), and the empty \<open>options\<close> object, for evaluating
  the definitions on concrete pages.
\<close>

definition blankElement :: "string \<Rightarrow> jstext \<Rightarrow> element" where
  "blankElement tag text =
     \<lparr> tagName = tag, localName = toLowerCase tag, isConnected = True, attrs = Map.empty,
       classList = [],
       elValue = [], placeholder = [], textContent = text, innerText = text,
       style = \<lparr> direction = [], textAlign = [], unicodeBidi = [], transition = [] \<rparr>,
       offsetParent = True, offsetHeight = 20, offsetWidth = 100,
       computedDisplay = ''block'', computedVisibility = ''visible'', computedOpacity = ''1'' \<rparr>"

definition marhaba :: jstext where
  "marhaba = [0x0645, 0x0631, 0x062D, 0x0628, 0x0627]"

definition noOptions :: options where
  "noOptions =
     \<lparr> optArabicThreshold = None, optDebounceDelay = None, optEnableVisualFeedback = None,
       optEnableIframeHandling = None, optBatchSize = None, optMaxProcessingTime = None \<rparr>"

text \<open>An engine at rest on a page of the given elements, none of them nested.\<close>

definition idleEngine :: "(nat \<rightharpoonup> element) \<Rightarrow> nat list \<Rightarrow> world" where
  "idleEngine es order =
     \<lparr> elems = es, docOrder = order, subtree = (\<lambda>n. []), config = makeConfig noOptions,
       processedElements = {}, textCache = Map.empty, debounceTimer = None,
       isEnabled = True, isProcessing = False, rafQueue = [] \<rparr>"

text \<open>A page of two Arabic paragraphs, each a visible \<open>P\<close> element, and an engine at rest on it.\<close>

definition twoParagraphs :: world where
  "twoParagraphs =
     idleEngine [1 \<mapsto> blankElement ''P'' marhaba, 2 \<mapsto> blankElement ''P'' marhaba] [1, 2]"

text \<open>
  On that page a mutation batch arrives and starts the debounce timer, a scan starts a
  batch of both paragraphs, the first time slice processes the first paragraph, and
  then \<open>disable\<close> is called.
\<close>

definition disabledMidBatch :: world where
  "disabledMidBatch =
     run sampleLetters twoParagraphs
       [HandleMutations [CharacterData (ElementNode 1)], ScanDOM Document, AnimationFrame 1,
        Disable]"

text \<open>
  On that page, not yet scanned, the two paragraphs have just been inserted, each
  reported by a mutation batch of its own within one debounce window; then the delay
  elapses and an animation frame with time for five elements runs.
\<close>

definition afterTwoBatches :: world where
  "afterTwoBatches =
     run sampleLetters twoParagraphs
       [HandleMutations [ChildList [ElementNode 1]], HandleMutations [ChildList [ElementNode 2]],
        TimerFires, AnimationFrame 5]"

text \<open>On that page both paragraphs have been scanned and processed; the engine is at rest.\<close>

definition bothProcessed :: world where
  "bothProcessed = run sampleLetters twoParagraphs [ScanDOM Document, AnimationFrame 2]"

text \<open>
  A page of one Arabic paragraph that had \<open>dir="ltr"\<close> when it was scanned and processed
  (so it was left unstyled), and from which the page has removed the \<open>dir\<close> attribute
  since; the observer does not watch that attribute. The text has not changed.
\<close>

definition overrideRemoved :: world where
  "overrideRemoved =
     (run sampleLetters
        (idleEngine [1 \<mapsto> (blankElement ''P'' marhaba)\<lparr>attrs := [''dir'' \<mapsto> ''ltr'']\<rparr>] [1])
        [ScanDOM Document, AnimationFrame 1])
     \<lparr>elems := [1 \<mapsto> blankElement ''P'' marhaba]\<rparr>"

section \<open>Notions used in the statements\<close>

text \<open>A node is styled when it carries the marker attribute that \<open>applyRTLStyles\<close> sets.\<close>

definition isStyled :: "world \<Rightarrow> nat \<Rightarrow> bool" where
  "isStyled w n =
     (case elems w n of None \<Rightarrow> False | Some e \<Rightarrow> attrs e ''data-rtl-applied'' = Some ''true'')"

text \<open>
  The always-check categories in the words of the specification: paragraph, heading,
  link, generic span.
\<close>

definition alwaysCheckCategory_spec :: "string \<Rightarrow> bool" where
  "alwaysCheckCategory_spec tag =
     (tag \<in> set [''P'', ''H1'', ''H2'', ''H3'', ''H4'', ''H5'', ''H6'', ''A'', ''SPAN''])"

text \<open>
  The exact value \<open>x\<close> of a non-negative double rounded to two decimals, halves upwards:
  the number \<open>n / 100\<close> whose digits \<open>toFixed(2)\<close> prints for that double. For the ratio
  \<open>r\<close> of an application it is taken of \<open>nearestDouble r\<close>.
\<close>

definition roundTo2 :: "rat \<Rightarrow> rat" where
  "roundTo2 x = of_int \<lfloor>x * 100 + 1 / 2\<rfloor> / 100"

text \<open>
  The affected nodes of all the batches of one window, in the words of the
  specification: what \<open>processMutations\<close> collects from the batches taken together.
\<close>

definition accumulatedAffected_spec :: "world \<Rightarrow> mutation list list \<Rightarrow> nat list" where
  "accumulatedAffected_spec w batches = snd (collectMutations w (concat batches))"

text \<open>
  What the statements observe of a state: the engine's flags, timer and pending slices,
  and for a node whether it is styled, whether it is in the processed set, its cache
  entry, its current text, and its marker and ratio attributes. \<open>snapshot\<close> takes these
  of the engine and of the nodes 1 and 2.
\<close>

definition engineState ::
  "world \<Rightarrow> bool \<times> bool \<times> mutation list option \<times> (nat list \<times> nat) list" where
  "engineState w = (isEnabled w, isProcessing w, debounceTimer w, rafQueue w)"

definition nodeState ::
  "world \<Rightarrow> nat \<Rightarrow> bool \<times> bool \<times> jstext option \<times> jstext option \<times> string option \<times> string option" where
  "nodeState w n =
     (isStyled w n, n \<in> processedElements w, textCache w n, map_option elementText (elems w n),
      (case elems w n of None \<Rightarrow> None | Some e \<Rightarrow> attrs e ''data-rtl-applied''),
      (case elems w n of None \<Rightarrow> None | Some e \<Rightarrow> attrs e ''data-arabic-ratio''))"

definition snapshot ::
  "world \<Rightarrow> (bool \<times> bool \<times> mutation list option \<times> (nat list \<times> nat) list)
     \<times> (bool \<times> bool \<times> jstext option \<times> jstext option \<times> string option \<times> string option)
     \<times> (bool \<times> bool \<times> jstext option \<times> jstext option \<times> string option \<times> string option)" where
  "snapshot w = (engineState w, nodeState w 1, nodeState w 2)"

section \<open>Short texts are left alone\<close>

text \<open>
  C10. For every node whose extracted text, trimmed, is shorter than 3 code units,
  \<open>processElement\<close> returns before the text is classified: whatever the tag, the
  attributes, the letters of the text and the Letter table, the page is left as it was
  and the node is not added to the processed set; the only trace is the cache entry that
  \<open>getElementText\<close> wrote (and not even that for a node out of the document).
\<close>

theorem short_text_never_processed:
  assumes "elems w n = Some e" and "length (trim (elementText e)) < 3"
  shows "processElement L w n =
           (if isConnected e then w\<lparr>textCache := (textCache w)(n \<mapsto> elementText e)\<rparr> else w)
         \<and> elems (processElement L w n) = elems w
         \<and> processedElements (processElement L w n) = processedElements w"
  using assms by (simp add: processElement_def getElementText_def Let_def)

theorem short_text_never_processed_witness:
  "elems (idleEngine [1 \<mapsto> blankElement ''P'' (take 2 marhaba)] [1]) 1
     = Some (blankElement ''P'' (take 2 marhaba))
   \<and> length (trim (elementText (blankElement ''P'' (take 2 marhaba)))) < 3
   \<and> 0 < calculateArabicRatio sampleLetters (take 2 marhaba)
   \<and> elems (processElement sampleLetters
              (idleEngine [1 \<mapsto> blankElement ''P'' (take 2 marhaba)] [1]) 1)
       = elems (idleEngine [1 \<mapsto> blankElement ''P'' (take 2 marhaba)] [1])
   \<and> processedElements (processElement sampleLetters
              (idleEngine [1 \<mapsto> blankElement ''P'' (take 2 marhaba)] [1]) 1) = {}"
proof -
  let ?e = "blankElement ''P'' (take 2 marhaba)"
  let ?w = "idleEngine [1 \<mapsto> ?e] [1]"
  have h1: "elems ?w 1 = Some ?e"
    by (simp add: idleEngine_def)
  have h2: "length (trim (elementText ?e)) < 3"
    by code_simp
  have h3: "0 < calculateArabicRatio sampleLetters (take 2 marhaba)"
    by code_simp
  have h4: "processedElements ?w = {}"
    by (simp add: idleEngine_def)
  from short_text_never_processed [OF h1 h2, of sampleLetters] h1 h2 h3 h4
  show ?thesis by simp
qed

section \<open>The configuration is fixed at construction\<close>

lemma foldl_keeps:
  assumes "\<And>a x. g (f a x) = g a"
  shows "g (foldl f a xs) = g a"
  by (induction xs arbitrary: a) (simp_all add: assms)

lemma config_applyAt: "config (applyAt w n r) = config w"
  by (simp add: applyAt_def split: option.splits)

lemma config_processElement: "config (processElement L w n) = config w"
  by (simp add: processElement_def getElementText_def Let_def config_applyAt split: option.splits)

lemma config_processConnected: "config (processConnected L w n) = config w"
  by (simp add: processConnected_def config_processElement split: option.splits)

lemma config_keepElement: "config (snd (keepElement w n)) = config w"
  by (simp add: keepElement_def getElementText_def Let_def split: option.splits)

lemma config_filterElements: "config (snd (filterElements w ns)) = config w"
proof (induction ns arbitrary: w)
  case Nil
  show ?case by simp
next
  case (Cons n ns)
  have "config (snd (filterElements (snd (keepElement w n)) ns)) = config w"
    by (simp add: Cons.IH config_keepElement)
  then show ?case
    by (simp add: case_prod_beta Let_def)
qed

lemma config_getTargetElements: "config (snd (getTargetElements w r)) = config w"
  by (simp add: getTargetElements_def config_filterElements)

lemma config_processElementsBatch: "config (processElementsBatch w els) = config w"
  by (simp add: processElementsBatch_def)

lemma config_processChunk: "config (processChunk L clock w chunk) = config w"
  by (simp add: processChunk_def Let_def foldl_keeps [where g = config] config_processConnected)

lemma config_scanDOM: "config (scanDOM w r) = config w"
  by (simp add: scanDOM_def case_prod_beta config_processElementsBatch config_getTargetElements)

lemma config_addedNode: "config (fst (addedNode acc node)) = config (fst acc)"
  by (cases acc; cases node) (simp_all add: case_prod_beta config_getTargetElements)

lemma config_changedTarget: "config (fst (changedTarget acc target)) = config (fst acc)"
  by (cases "(acc, target)" rule: changedTarget.cases; cases acc) simp_all

lemma config_mutationStep: "config (fst (mutationStep acc m)) = config (fst acc)"
  by (cases m)
     (simp_all add: config_changedTarget foldl_keeps [where g = "\<lambda>a. config (fst a)"] config_addedNode)

lemma config_collectMutations: "config (fst (collectMutations w ms)) = config w"
  by (simp add: collectMutations_def foldl_keeps [where g = "\<lambda>a. config (fst a)"] config_mutationStep)

lemma config_processMutations: "config (processMutations w ms) = config w"
  using config_collectMutations [of w ms]
  by (simp add: processMutations_def case_prod_beta config_processElementsBatch)

lemma config_timerFires: "config (timerFires w) = config w"
  by (simp add: timerFires_def config_processMutations split: option.splits)

lemma config_removeRTL: "config (removeRTL w n) = config w"
  by (simp add: removeRTL_def split: option.splits)

lemma config_disable: "config (disable w) = config w"
  by (simp add: disable_def removeAllRTLStyles_def foldl_keeps [where g = config] config_removeRTL)

lemma config_step: "config (step L w ev) = config w"
  by (cases ev)
     (simp_all add: config_scanDOM enable_def config_disable handleMutations_def config_timerFires
        config_processChunk split: list.splits)

lemma config_run: "config (run L w events) = config w"
  by (simp add: run_def foldl_keeps [where g = config] config_step)

text \<open>
  C9. The effective threshold is 0.3 when the caller's options do not name one, and
  otherwise it is the value the caller gave, whatever it is, so in particular for every
  value from 0 to 1 (0 included: the spread of the options overrides the default that
  \<open>||\<close> had put in its place). The configuration is built once by the constructor, and
  no event writes it: after any events the engine still holds that record.
\<close>

theorem threshold_default_or_supplied:
  "(optArabicThreshold opts = None \<longrightarrow> arabicThreshold (makeConfig opts) = 3 / 10)
   \<and> (\<forall>v. optArabicThreshold opts = Some v \<longrightarrow> arabicThreshold (makeConfig opts) = v)
   \<and> config (run L (newCorrector opts es order sub) events) = makeConfig opts"
  by (simp add: makeConfig_def spread_def orDefault_def config_run newCorrector_def config_scanDOM)

theorem threshold_default_or_supplied_witness:
  "arabicThreshold (makeConfig noOptions) = 3 / 10
   \<and> arabicThreshold (makeConfig (noOptions\<lparr>optArabicThreshold := Some 0\<rparr>)) = 0
   \<and> arabicThreshold (makeConfig (noOptions\<lparr>optArabicThreshold := Some (1 / 2)\<rparr>)) = 1 / 2
   \<and> arabicThreshold (makeConfig (noOptions\<lparr>optArabicThreshold := Some 1\<rparr>)) = 1"
proof -
  have absent: "optArabicThreshold noOptions = None"
    by (simp add: noOptions_def)
  have given: "optArabicThreshold (noOptions\<lparr>optArabicThreshold := Some v\<rparr>) = Some v" for v
    by simp
  note t = threshold_default_or_supplied [where L = sampleLetters and es = Map.empty
      and order = "[]" and sub = "\<lambda>n. []" and events = "[]"]
  from t [of noOptions] absent
  have "arabicThreshold (makeConfig noOptions) = 3 / 10"
    by blast
  moreover from t [of "noOptions\<lparr>optArabicThreshold := Some 0\<rparr>"] given [of 0]
  have "arabicThreshold (makeConfig (noOptions\<lparr>optArabicThreshold := Some 0\<rparr>)) = 0"
    by blast
  moreover from t [of "noOptions\<lparr>optArabicThreshold := Some (1 / 2)\<rparr>"] given [of "1 / 2"]
  have "arabicThreshold (makeConfig (noOptions\<lparr>optArabicThreshold := Some (1 / 2)\<rparr>)) = 1 / 2"
    by blast
  moreover from t [of "noOptions\<lparr>optArabicThreshold := Some 1\<rparr>"] given [of 1]
  have "arabicThreshold (makeConfig (noOptions\<lparr>optArabicThreshold := Some 1\<rparr>)) = 1"
    by blast
  ultimately show ?thesis by blast
qed

section \<open>The classifier\<close>

lemma removeWhitespace_id: "list_all (\<lambda>c. \<not> isSpace c) t \<Longrightarrow> removeWhitespace t = t"
  by (simp add: removeWhitespace_def list_all_iff)

lemma nonSpaceRun_all: "t \<noteq> [] \<Longrightarrow> list_all (\<lambda>c. \<not> isSpace c) t \<Longrightarrow> nonSpaceRun t = Some []"
  by (cases t) (simp_all add: nonSpaceRun_def list_all_iff)

lemma length_keepLetters: "length (keepLetters L s) \<le> length s"
  by (induction L s rule: keepLetters.induct) auto

lemma url_https_stripped:
  assumes "t \<noteq> []" and "list_all (\<lambda>c. \<not> isSpace c) t"
  shows "stripLtr (removeWhitespace (jsstr ''https://'' @ t)) = []"
proof -
  have "list_all (\<lambda>c. \<not> isSpace c) (jsstr ''https://'' @ t)"
    using assms by (simp add: jsstr_def isSpace_def)
  then have "removeWhitespace (jsstr ''https://'' @ t) = jsstr ''https://'' @ t"
    by (rule removeWhitespace_id)
  moreover have "matchHttp (jsstr ''https://'' @ t) = Some []"
    using nonSpaceRun_all [OF assms] by (simp add: matchHttp_def stripPrefix_def jsstr_def)
  ultimately show ?thesis
    by (simp add: jsstr_def isDigit_def)
qed

lemma url_http_stripped:
  assumes "t \<noteq> []" and "list_all (\<lambda>c. \<not> isSpace c) t"
  shows "stripLtr (removeWhitespace (jsstr ''http://'' @ t)) = []"
proof -
  have "list_all (\<lambda>c. \<not> isSpace c) (jsstr ''http://'' @ t)"
    using assms by (simp add: jsstr_def isSpace_def)
  then have "removeWhitespace (jsstr ''http://'' @ t) = jsstr ''http://'' @ t"
    by (rule removeWhitespace_id)
  moreover have "matchHttp (jsstr ''http://'' @ t) = Some []"
    using nonSpaceRun_all [OF assms] by (simp add: matchHttp_def stripPrefix_def jsstr_def)
  ultimately show ?thesis
    by (simp add: jsstr_def isDigit_def)
qed

lemma url_www_stripped:
  assumes "t \<noteq> []" and "list_all (\<lambda>c. \<not> isSpace c) t"
  shows "stripLtr (removeWhitespace (jsstr ''www.'' @ t)) = []"
proof -
  have "list_all (\<lambda>c. \<not> isSpace c) (jsstr ''www.'' @ t)"
    using assms by (simp add: jsstr_def isSpace_def)
  then have "removeWhitespace (jsstr ''www.'' @ t) = jsstr ''www.'' @ t"
    by (rule removeWhitespace_id)
  moreover have "matchHttp (jsstr ''www.'' @ t) = None"
    by (simp add: matchHttp_def stripPrefix_def jsstr_def)
  moreover have "matchWww (jsstr ''www.'' @ t) = Some []"
    using nonSpaceRun_all [OF assms] by (simp add: matchWww_def stripPrefix_def jsstr_def)
  ultimately show ?thesis
    by (simp add: jsstr_def isDigit_def)
qed

text \<open>
  C7. The classifier is a function of its text alone (and of the engine-independent
  Letter table): it takes no engine state and returns none, so equal texts give equal
  ratios. It is 0 on the empty text and on \<open>"12345"\<close>. A text that is one URL-like token
  (\<open>https://\<close>, \<open>http://\<close> or \<open>www.\<close> followed by at least one character, with no
  whitespace), such as \<open>"https://x.y/ar"\<close>, is deleted whole before the letters are
  counted, so its ratio is 0 whatever its letters are.
\<close>

theorem ratio_pure_zero_on_empty_digits_url:
  "calculateArabicRatio L text = calculateArabicRatio L text
   \<and> calculateArabicRatio L [] = 0
   \<and> calculateArabicRatio L (jsstr ''12345'') = 0
   \<and> calculateArabicRatio L (jsstr ''https://x.y/ar'') = 0
   \<and> (t \<noteq> [] \<and> list_all (\<lambda>c. \<not> isSpace c) t \<longrightarrow>
        calculateArabicRatio L (jsstr ''https://'' @ t) = 0
        \<and> calculateArabicRatio L (jsstr ''http://'' @ t) = 0
        \<and> calculateArabicRatio L (jsstr ''www.'' @ t) = 0)"
proof -
  have digits: "calculateArabicRatio L (jsstr ''12345'') = 0"
    by (simp add: calculateArabicRatio_def jsstr_def removeWhitespace_def isSpace_def isDigit_def)
  have urls: "calculateArabicRatio L (jsstr ''https://'' @ t) = 0
      \<and> calculateArabicRatio L (jsstr ''http://'' @ t) = 0
      \<and> calculateArabicRatio L (jsstr ''www.'' @ t) = 0"
    if "t \<noteq> []" and "list_all (\<lambda>c. \<not> isSpace c) t" for t
    using that
    by (simp add: calculateArabicRatio_def url_https_stripped url_http_stripped url_www_stripped)
  have "calculateArabicRatio L (jsstr ''https://'' @ jsstr ''x.y/ar'') = 0"
    using urls [of "jsstr ''x.y/ar''"] by (simp add: jsstr_def isSpace_def)
  then have url: "calculateArabicRatio L (jsstr ''https://x.y/ar'') = 0"
    by (simp add: jsstr_def)
  show ?thesis
    using digits url urls by (simp add: calculateArabicRatio_def)
qed

theorem ratio_pure_zero_on_empty_digits_url_witness:
  "marhaba \<noteq> [] \<and> list_all (\<lambda>c. \<not> isSpace c) marhaba
   \<and> calculateArabicRatio sampleLetters marhaba = 1
   \<and> calculateArabicRatio sampleLetters (jsstr ''https://'' @ marhaba) = 0
   \<and> calculateArabicRatio sampleLetters (jsstr ''www.'' @ marhaba) = 0"
proof -
  have h: "marhaba \<noteq> [] \<and> list_all (\<lambda>c. \<not> isSpace c) marhaba"
    by (simp add: marhaba_def isSpace_def)
  have one: "calculateArabicRatio sampleLetters marhaba = 1"
    by code_simp
  from ratio_pure_zero_on_empty_digits_url [of sampleLetters "[]" marhaba] h one
  show ?thesis by blast
qed

section \<open>Which operations write the page\<close>

lemma foldl_keeps_on:
  assumes "\<And>a x. x \<in> set xs \<Longrightarrow> P a \<Longrightarrow> P (f a x)" and "P a"
  shows "P (foldl f a xs)"
  using assms by (induction xs arbitrary: a) simp_all

lemma elems_keepElement: "elems (snd (keepElement w n)) = elems w"
  by (simp add: keepElement_def getElementText_def Let_def split: option.splits)

lemma elems_filterElements: "elems (snd (filterElements w ns)) = elems w"
proof (induction ns arbitrary: w)
  case Nil
  show ?case by simp
next
  case (Cons n ns)
  have "elems (snd (filterElements (snd (keepElement w n)) ns)) = elems w"
    by (simp add: Cons.IH elems_keepElement)
  then show ?case
    by (simp add: case_prod_beta Let_def)
qed

lemma elems_getTargetElements: "elems (snd (getTargetElements w r)) = elems w"
  by (simp add: getTargetElements_def elems_filterElements)

lemma elems_processElementsBatch: "elems (processElementsBatch w els) = elems w"
  by (simp add: processElementsBatch_def)

lemma elems_scanDOM: "elems (scanDOM w r) = elems w"
  by (simp add: scanDOM_def case_prod_beta elems_processElementsBatch elems_getTargetElements)

lemma elems_addedNode: "elems (fst (addedNode acc node)) = elems (fst acc)"
  by (cases acc; cases node) (simp_all add: case_prod_beta elems_getTargetElements)

lemma elems_changedTarget: "elems (fst (changedTarget acc target)) = elems (fst acc)"
  by (cases "(acc, target)" rule: changedTarget.cases; cases acc) simp_all

lemma elems_mutationStep: "elems (fst (mutationStep acc m)) = elems (fst acc)"
  by (cases m)
     (simp_all add: elems_changedTarget foldl_keeps [where g = "\<lambda>a. elems (fst a)"] elems_addedNode)

lemma elems_collectMutations: "elems (fst (collectMutations w ms)) = elems w"
  by (simp add: collectMutations_def foldl_keeps [where g = "\<lambda>a. elems (fst a)"] elems_mutationStep)

lemma elems_processMutations: "elems (processMutations w ms) = elems w"
  using elems_collectMutations [of w ms]
  by (simp add: processMutations_def case_prod_beta elems_processElementsBatch)

lemma elems_timerFires: "elems (timerFires w) = elems w"
  by (simp add: timerFires_def elems_processMutations split: option.splits)

section \<open>The left-to-right override\<close>

lemma ltr_applyRTLStyles: "hasLtrOverride e \<Longrightarrow> applyRTLStyles cfg e r = e"
  by (simp add: applyRTLStyles_def)

lemma ltr_applyAt:
  "hasLtrOverride e \<Longrightarrow> elems w n = Some e \<Longrightarrow> elems (applyAt w m r) n = Some e"
  by (cases "m = n") (simp_all add: applyAt_def ltr_applyRTLStyles split: option.splits)

lemma ltr_processElement:
  "hasLtrOverride e \<Longrightarrow> elems w n = Some e \<Longrightarrow> elems (processElement L w m) n = Some e"
  by (simp add: processElement_def getElementText_def Let_def ltr_applyAt split: option.splits)

lemma ltr_processConnected:
  "hasLtrOverride e \<Longrightarrow> elems w n = Some e \<Longrightarrow> elems (processConnected L w m) n = Some e"
  by (simp add: processConnected_def ltr_processElement split: option.splits)

lemma ltr_processChunk:
  assumes "hasLtrOverride e" and "elems w n = Some e"
  shows "elems (processChunk L clock w chunk) n = Some e"
proof -
  have "elems (foldl (processConnected L) w xs) n = Some e" for xs
    by (rule foldl_keeps_on [where P = "\<lambda>a. elems a n = Some e"])
       (simp_all add: assms ltr_processConnected)
  then show ?thesis
    by (simp add: processChunk_def Let_def)
qed

lemma other_removeRTL: "m \<noteq> n \<Longrightarrow> elems (removeRTL w m) n = elems w n"
  by (simp add: removeRTL_def split: option.splits)

lemma unmarked_disable:
  assumes "elems w n = Some e" and "attrs e ''data-rtl-applied'' \<noteq> Some ''true''"
  shows "elems (disable w) n = Some e"
proof -
  let ?w = "w\<lparr>isEnabled := False, isProcessing := False, debounceTimer := None\<rparr>"
  have out: "n \<notin> set (rtlElements ?w)"
    using assms by (simp add: rtlElements_def)
  have "elems (foldl removeRTL ?w (rtlElements ?w)) n = Some e"
  proof (rule foldl_keeps_on [where P = "\<lambda>a. elems a n = Some e"])
    fix a :: world and x
    assume "x \<in> set (rtlElements ?w)" and "elems a n = Some e"
    with out show "elems (removeRTL a x) n = Some e"
      by (cases "x = n") (simp_all add: other_removeRTL)
  next
    show "elems ?w n = Some e"
      by (simp add: assms)
  qed
  then show ?thesis
    by (simp add: disable_def removeAllRTLStyles_def)
qed

lemma ltr_step:
  assumes "hasLtrOverride e" and "elems w n = Some e"
    and "attrs e ''data-rtl-applied'' \<noteq> Some ''true''"
  shows "elems (step L w ev) n = Some e"
proof (cases ev)
  case (AnimationFrame clock)
  then show ?thesis
    using assms by (simp add: ltr_processChunk split: list.splits)
next
  case Disable
  then show ?thesis
    using assms by (simp add: unmarked_disable)
qed (simp_all add: assms elems_scanDOM enable_def handleMutations_def elems_timerFires)

text \<open>
  C6. A node with an explicit \<open>dir="ltr"\<close> (in any letter case): \<open>applyRTLStyles\<close> returns
  it as it is for every ratio, with no style property and no attribute written. A node
  that has the override and is unstyled (it does not carry the marker) is the very same
  element after any sequence of scans, rescans, mutation batches, timer firings, time
  slices, and calls of \<open>enable\<close> and \<open>disable\<close>: the engine's events never touch the
  \<open>dir\<close> attribute, so the override persists through them.
\<close>

theorem ltr_override_never_styled:
  assumes "hasLtrOverride e"
  shows "applyRTLStyles cfg e r = e
         \<and> (elems w n = Some e \<and> attrs e ''data-rtl-applied'' \<noteq> Some ''true''
              \<longrightarrow> elems (run L w events) n = Some e)"
proof -
  have "elems (foldl (step L) w events) n = Some e"
    if "elems w n = Some e" and "attrs e ''data-rtl-applied'' \<noteq> Some ''true''"
    by (rule foldl_keeps_on [where P = "\<lambda>a. elems a n = Some e"])
       (simp_all add: assms that ltr_step)
  then show ?thesis
    by (simp add: run_def ltr_applyRTLStyles assms)
qed

theorem ltr_override_never_styled_witness:
  "hasLtrOverride ((blankElement ''P'' marhaba)\<lparr>attrs := [''dir'' \<mapsto> ''LTR'']\<rparr>)
   \<and> calculateArabicRatio sampleLetters marhaba = 1
   \<and> applyRTLStyles (makeConfig noOptions)
        ((blankElement ''P'' marhaba)\<lparr>attrs := [''dir'' \<mapsto> ''LTR'']\<rparr>) 1
      = (blankElement ''P'' marhaba)\<lparr>attrs := [''dir'' \<mapsto> ''LTR'']\<rparr>
   \<and> elems (run sampleLetters
        (idleEngine [1 \<mapsto> (blankElement ''P'' marhaba)\<lparr>attrs := [''dir'' \<mapsto> ''LTR'']\<rparr>] [1])
        [ScanDOM Document, AnimationFrame 5, ScanDOM Document, AnimationFrame 5,
         Disable, Enable, AnimationFrame 5]) 1
      = Some ((blankElement ''P'' marhaba)\<lparr>attrs := [''dir'' \<mapsto> ''LTR'']\<rparr>)"
proof -
  let ?e = "(blankElement ''P'' marhaba)\<lparr>attrs := [''dir'' \<mapsto> ''LTR'']\<rparr>"
  have h1: "hasLtrOverride ?e"
    by (simp add: hasLtrOverride_def toLowerCase_def)
  have h2: "elems (idleEngine [1 \<mapsto> ?e] [1]) 1 = Some ?e"
    by (simp add: idleEngine_def)
  have h3: "attrs ?e ''data-rtl-applied'' \<noteq> Some ''true''"
    by simp
  have h4: "calculateArabicRatio sampleLetters marhaba = 1"
    by code_simp
  from ltr_override_never_styled [OF h1, of "makeConfig noOptions" 1 "idleEngine [1 \<mapsto> ?e] [1]" 1
      sampleLetters "[ScanDOM Document, AnimationFrame 5, ScanDOM Document, AnimationFrame 5,
         Disable, Enable, AnimationFrame 5]"] h1 h2 h3 h4
  show ?thesis by blast
qed

section \<open>The styling decision of processElement\<close>

text \<open>
  C1, as stated, fails in four ways. A second-level heading: \<open>H2\<close> is a heading and a
  target of the scan, its text has one Arabic letter among four (ratio 1/4, above 0 and
  below the threshold 0.3), and \<open>processElement\<close> leaves it unstyled, since the code
  checks \<open>H1\<close> only. A list item that was styled when its text was Arabic and whose text
  is Latin now (ratio 0, below the threshold): it is still styled after processing,
  since nothing in \<open>processElement\<close> removes styling. A paragraph of two Arabic letters
  (ratio 1) and an Arabic paragraph with \<open>dir="ltr"\<close> (ratio 1): both stay unstyled.
\<close>

theorem always_check_heading_counterexample:
  "alwaysCheckCategory_spec (tagName (blankElement ''H2'' (0x0645 # jsstr ''bcd'')))
   \<and> matchesTarget (blankElement ''H2'' (0x0645 # jsstr ''bcd''))
   \<and> calculateArabicRatio sampleLetters (elementText (blankElement ''H2'' (0x0645 # jsstr ''bcd''))) = 1 / 4
   \<and> arabicThreshold (config (idleEngine [1 \<mapsto> blankElement ''H2'' (0x0645 # jsstr ''bcd'')] [1])) = 3 / 10
   \<and> \<not> isStyled (processElement sampleLetters
          (idleEngine [1 \<mapsto> blankElement ''H2'' (0x0645 # jsstr ''bcd'')] [1]) 1) 1
   \<and> \<not> alwaysCheckCategory_spec (tagName (blankElement ''LI'' (jsstr ''hello'')))
   \<and> matchesTarget (blankElement ''LI'' (jsstr ''hello''))
   \<and> calculateArabicRatio sampleLetters (jsstr ''hello'') = 0
   \<and> isStyled (processElement sampleLetters
          (idleEngine [1 \<mapsto> (blankElement ''LI'' (jsstr ''hello''))
             \<lparr>attrs := [''data-rtl-applied'' \<mapsto> ''true'', ''data-arabic-ratio'' \<mapsto> ''1.00'']\<rparr>] [1]) 1) 1
   \<and> calculateArabicRatio sampleLetters (take 2 marhaba) = 1
   \<and> \<not> isStyled (processElement sampleLetters
          (idleEngine [1 \<mapsto> blankElement ''P'' (take 2 marhaba)] [1]) 1) 1
   \<and> calculateArabicRatio sampleLetters marhaba = 1
   \<and> \<not> isStyled (processElement sampleLetters
          (idleEngine [1 \<mapsto> (blankElement ''P'' marhaba)\<lparr>attrs := [''dir'' \<mapsto> ''ltr'']\<rparr>] [1]) 1) 1"
  by code_simp

text \<open>
  C1, amended. The always-check tags are \<open>SPAN\<close>, \<open>H1\<close>, \<open>A\<close> and \<open>P\<close>; the headings \<open>H2\<close>
  to \<open>H6\<close> follow the threshold like every other tag. For every connected node whose
  trimmed text has at least 3 code units, \<open>processElement\<close> applies the styling
  operation \<open>applyRTLStyles\<close> to the node if and only if its tag is one of the four and
  its ratio is above 0, or its ratio is at least the configured threshold; otherwise
  the node is left exactly as it is. So after processing the node is styled if and only
  if the styling operation was applied and neither of its guards stopped it (no
  left-to-right override, no recorded ratio within 0.01 of the new one), or the node
  was styled before: processing never removes styling.
\<close>

theorem styling_applied_iff_always_check_or_threshold:
  assumes "elems w n = Some e" and "isConnected e"
    and "3 \<le> length (trim (elementText e))"
  shows "elems (processElement L w n) n
           = Some (if (tagName e \<in> set [''SPAN'', ''H1'', ''A'', ''P'']
                         \<and> 0 < calculateArabicRatio L (elementText e))
                      \<or> nearestDouble (arabicThreshold (config w))
                           \<le> calculateArabicRatio L (elementText e)
                   then applyRTLStyles (config w) e (calculateArabicRatio L (elementText e))
                   else e)
         \<and> (isStyled (processElement L w n) n \<longleftrightarrow>
              ((tagName e \<in> set [''SPAN'', ''H1'', ''A'', ''P'']
                   \<and> 0 < calculateArabicRatio L (elementText e))
                 \<or> nearestDouble (arabicThreshold (config w))
                      \<le> calculateArabicRatio L (elementText e))
              \<and> \<not> hasLtrOverride e
              \<and> \<not> ratioAlreadyApplied e (calculateArabicRatio L (elementText e))
              \<or> isStyled w n)"
proof -
  define r where "r = calculateArabicRatio L (elementText e)"
  define decision where
    "decision \<longleftrightarrow> (tagName e \<in> set [''SPAN'', ''H1'', ''A'', ''P''] \<and> 0 < r)
       \<or> nearestDouble (arabicThreshold (config w)) \<le> r"
  have nonempty: "elementText e \<noteq> []"
    using assms(3) by (auto simp: trim_def)
  have after: "elems (processElement L w n) n = Some (if decision then applyRTLStyles (config w) e r else e)"
    using assms nonempty
    by (auto simp: processElement_def getElementText_def Let_def applyAt_def r_def decision_def)
  have styled: "isStyled (processElement L w n) n \<longleftrightarrow>
      decision \<and> \<not> hasLtrOverride e \<and> \<not> ratioAlreadyApplied e r \<or> isStyled w n"
    using assms(1) by (auto simp: isStyled_def after applyRTLStyles_def)
  from after styled show ?thesis
    unfolding r_def decision_def by blast
qed

theorem styling_applied_iff_always_check_or_threshold_witness:
  "calculateArabicRatio sampleLetters (elementText (blankElement ''H1'' (0x0645 # jsstr ''bcd''))) = 1 / 4
   \<and> arabicThreshold (config (idleEngine [1 \<mapsto> blankElement ''H1'' (0x0645 # jsstr ''bcd'')] [1])) = 3 / 10
   \<and> isStyled (processElement sampleLetters
        (idleEngine [1 \<mapsto> blankElement ''H1'' (0x0645 # jsstr ''bcd'')] [1]) 1) 1
   \<and> \<not> isStyled (processElement sampleLetters
        (idleEngine [1 \<mapsto> blankElement ''LI'' (0x0645 # jsstr ''bcd'')] [1]) 1) 1"
proof -
  let ?t = "0x0645 # jsstr ''bcd''"
  let ?h = "blankElement ''H1'' ?t"
  let ?l = "blankElement ''LI'' ?t"
  have r: "calculateArabicRatio sampleLetters (elementText ?h) = 1 / 4"
       "calculateArabicRatio sampleLetters (elementText ?l) = 1 / 4"
    by code_simp+
  have c: "arabicThreshold (config (idleEngine [1 \<mapsto> ?h] [1])) = 3 / 10"
       "arabicThreshold (config (idleEngine [1 \<mapsto> ?l] [1])) = 3 / 10"
    by code_simp+
  have thr: "\<not> nearestDouble (3 / 10) \<le> (1 / 4 :: rat)"
    by code_simp
  have h: "elems (idleEngine [1 \<mapsto> ?h] [1]) 1 = Some ?h" "isConnected ?h"
      "3 \<le> length (trim (elementText ?h))"
    by (simp add: idleEngine_def, simp add: blankElement_def, code_simp)
  have hg: "\<not> hasLtrOverride ?h"
      "\<not> ratioAlreadyApplied ?h (calculateArabicRatio sampleLetters (elementText ?h))"
    by (simp add: hasLtrOverride_def blankElement_def,
        simp add: ratioAlreadyApplied_def blankElement_def)
  have l: "elems (idleEngine [1 \<mapsto> ?l] [1]) 1 = Some ?l" "isConnected ?l"
      "3 \<le> length (trim (elementText ?l))"
    by (simp add: idleEngine_def, simp add: blankElement_def, code_simp)
  have lu: "\<not> isStyled (idleEngine [1 \<mapsto> ?l] [1]) 1"
    by (simp add: isStyled_def idleEngine_def blankElement_def)
  have th: "tagName ?h \<in> set [''SPAN'', ''H1'', ''A'', ''P'']"
    and tl: "tagName ?l \<notin> set [''SPAN'', ''H1'', ''A'', ''P'']"
    by (simp_all add: blankElement_def)
  have pos: "0 < calculateArabicRatio sampleLetters (elementText ?h)"
    by (simp add: r(1))
  have below: "\<not> nearestDouble (arabicThreshold (config (idleEngine [1 \<mapsto> ?l] [1])))
                   \<le> calculateArabicRatio sampleLetters (elementText ?l)"
    unfolding c(2) r(2) by (rule thr)
  have "isStyled (processElement sampleLetters (idleEngine [1 \<mapsto> ?h] [1]) 1) 1"
    using styling_applied_iff_always_check_or_threshold [OF h, THEN conjunct2, of sampleLetters]
      hg th pos
    by blast
  moreover have "\<not> isStyled (processElement sampleLetters (idleEngine [1 \<mapsto> ?l] [1]) 1) 1"
    using styling_applied_iff_always_check_or_threshold [OF l, THEN conjunct2, of sampleLetters]
      lu tl below
    by blast
  ultimately show ?thesis
    using r(1) c(1) by blast
qed

section \<open>Rounding to a double\<close>

lemma roundHalfEven_near: "\<bar>of_int (roundHalfEven q) - q\<bar> \<le> 1 / 2"
proof -
  have "of_int \<lfloor>q\<rfloor> \<le> q" and "q < of_int \<lfloor>q\<rfloor> + 1"
    by linarith+
  then show ?thesis
    by (auto simp: roundHalfEven_def Let_def abs_le_iff)
qed

lemma roundHalfEven_nonneg: "0 \<le> q \<Longrightarrow> 0 \<le> roundHalfEven q"
  by (auto simp: roundHalfEven_def Let_def)

text \<open>
  The rounding is that of IEEE 754 binary64: \<open>exponentOf\<close> is the binary exponent (or
  -1022 in the subnormal range), the result is a significand of at most 53 bits times
  \<open>2^(e - 52)\<close>, and it is within half a unit in the last place of the number rounded.
\<close>

lemma bitlen_powi_bounds:
  assumes "0 < a"
  shows "(2 :: rat) powi (bitlen a - 1) \<le> of_int a" and "of_int a < (2 :: rat) powi bitlen a"
proof -
  from assms have pos: "1 \<le> bitlen a"
    using bitlen_eq_zero_iff [of a] bitlen_nonneg [of a] by auto
  have "(2 :: int) ^ nat (bitlen a - 1) \<le> a" and "a < 2 ^ nat (bitlen a)"
    using bitlen_bounds [OF assms] by simp_all
  then have "(of_int (2 ^ nat (bitlen a - 1)) :: rat) \<le> of_int a"
    and "(of_int a :: rat) < of_int (2 ^ nat (bitlen a))"
    by (simp_all only: of_int_le_iff of_int_less_iff)
  then show "(2 :: rat) powi (bitlen a - 1) \<le> of_int a" and "of_int a < (2 :: rat) powi bitlen a"
    using pos by (simp_all add: power_int_def)
qed

lemma exponentOf_bounds:
  assumes "0 < m"
  shows "m < 2 powi (exponentOf m + 1)"
    and "2 powi exponentOf m \<le> m \<or> exponentOf m = - 1022"
proof -
  define a where "a = fst (quotient_of m)"
  define b where "b = snd (quotient_of m)"
  define e0 where "e0 = bitlen a - bitlen b"
  have bpos: "0 < b"
    by (simp add: b_def quotient_of_denom_pos')
  have m: "m = of_int a / of_int b"
    by (rule quotient_of_div) (simp add: a_def b_def)
  from assms bpos have apos: "0 < a"
    by (simp add: m zero_less_divide_iff)
  note ba = bitlen_powi_bounds [OF apos] and bb = bitlen_powi_bounds [OF bpos]
  have bq: "(0 :: rat) < of_int b"
    using bpos by simp
  have p0: "(0 :: rat) < 2 powi k" for k
    by (simp add: zero_less_power_int)
  have "m < 2 powi bitlen a / of_int b"
    unfolding m using ba(2) bq by (rule divide_strict_right_mono)
  also have "\<dots> \<le> 2 powi bitlen a / 2 powi (bitlen b - 1)"
    using bb(1) p0 [of "bitlen b - 1"] p0 [of "bitlen a"] bq
    by (intro divide_left_mono) (simp_all add: less_imp_le)
  finally have upper: "m < 2 powi (e0 + 1)"
    by (simp add: e0_def power_int_diff [symmetric] algebra_simps)
  have "(2 :: rat) powi (bitlen a - 1) / 2 powi bitlen b < 2 powi (bitlen a - 1) / of_int b"
    using bb(2) bq p0 [of "bitlen a - 1"] p0 [of "bitlen b"]
    by (intro divide_strict_left_mono) simp_all
  also have "\<dots> \<le> m"
    unfolding m using ba(1) bq by (intro divide_right_mono) (simp_all add: less_imp_le)
  finally have lower: "2 powi (e0 - 1) < m"
    by (simp add: e0_def power_int_diff [symmetric] algebra_simps)
  define e where "e = (if 2 powi e0 \<le> m then e0 else e0 - 1)"
  have ex: "exponentOf m = max e (- 1022)"
    by (simp add: exponentOf_def Let_def e_def e0_def a_def b_def)
  have eu: "m < 2 powi (e + 1)" and el: "2 powi e \<le> m"
    using upper lower by (auto simp: e_def)
  have "(2 :: rat) powi (e + 1) \<le> 2 powi (max e (- 1022) + 1)"
    by (intro power_int_increasing) simp_all
  with eu show "m < 2 powi (exponentOf m + 1)"
    by (simp only: ex)
  from el show "2 powi exponentOf m \<le> m \<or> exponentOf m = - 1022"
    unfolding ex by (cases "e \<le> - 1022") (simp_all add: max_def)
qed

lemma nearestDouble_half_ulp:
  "\<bar>nearestDouble x - x\<bar> \<le> 2 powi (exponentOf \<bar>x\<bar> - 53)"
proof (cases "x = 0")
  case True
  then show ?thesis
    by (simp add: nearestDouble_def zero_less_power_int less_imp_le)
next
  case False
  define u :: rat where "u = 2 powi (exponentOf \<bar>x\<bar> - 52)"
  define n where "n = roundHalfEven (\<bar>x\<bar> / u)"
  have upos: "0 < u"
    by (simp add: u_def zero_less_power_int)
  have half: "1 / 2 * u = 2 powi (exponentOf \<bar>x\<bar> - 53)"
  proof -
    have "(2 :: rat) powi (exponentOf \<bar>x\<bar> - 53) = 2 powi (exponentOf \<bar>x\<bar> - 52 - 1)"
      by simp
    also have "\<dots> = 2 powi (exponentOf \<bar>x\<bar> - 52) / 2 powi 1"
      by (rule power_int_diff) simp
    finally show ?thesis
      by (simp add: u_def)
  qed
  have "\<bar>of_int n - \<bar>x\<bar> / u\<bar> \<le> 1 / 2"
    unfolding n_def by (rule roundHalfEven_near)
  then have "\<bar>of_int n - \<bar>x\<bar> / u\<bar> * u \<le> 1 / 2 * u"
    using upos by (intro mult_right_mono) simp_all
  moreover have "\<bar>of_int n - \<bar>x\<bar> / u\<bar> * u = \<bar>of_int n * u - \<bar>x\<bar>\<bar>"
  proof -
    have "of_int n * u - \<bar>x\<bar> = (of_int n - \<bar>x\<bar> / u) * u"
      using upos by (simp add: field_simps)
    then have "\<bar>of_int n * u - \<bar>x\<bar>\<bar> = \<bar>(of_int n - \<bar>x\<bar> / u) * u\<bar>"
      by (rule arg_cong)
    also have "\<dots> = \<bar>of_int n - \<bar>x\<bar> / u\<bar> * u"
      using upos by (simp only: abs_mult abs_of_pos)
    finally show ?thesis
      by (rule sym)
  qed
  ultimately have near: "\<bar>of_int n * u - \<bar>x\<bar>\<bar> \<le> 2 powi (exponentOf \<bar>x\<bar> - 53)"
    by (simp only: half)
  have nd: "nearestDouble x = sgn x * of_int n * u"
    using False by (simp add: nearestDouble_def Let_def n_def u_def)
  have "nearestDouble x - x = sgn x * (of_int n * u - \<bar>x\<bar>)"
    by (simp add: nd right_diff_distrib mult.assoc flip: mult_sgn_abs)
  then have "\<bar>nearestDouble x - x\<bar> = \<bar>of_int n * u - \<bar>x\<bar>\<bar>"
    using False by (simp add: abs_mult abs_sgn_eq)
  with near show ?thesis
    by simp
qed

lemma roundHalfEven_below: "q < of_int N \<Longrightarrow> roundHalfEven q \<le> N"
proof -
  assume "q < of_int N"
  then have "\<lfloor>q\<rfloor> < N"
    by (simp add: floor_less_iff)
  then show ?thesis
    by (auto simp: roundHalfEven_def Let_def)
qed

lemma nearestDouble_significand:
  assumes "x \<noteq> 0"
  shows "\<exists>n. nearestDouble x = sgn x * of_int n * 2 powi (exponentOf \<bar>x\<bar> - 52)
             \<and> 0 \<le> n \<and> n \<le> 2 ^ 53"
proof -
  define e where "e = exponentOf \<bar>x\<bar>"
  define u :: rat where "u = 2 powi (e - 52)"
  define n where "n = roundHalfEven (\<bar>x\<bar> / u)"
  have upos: "0 < u"
    by (simp add: u_def zero_less_power_int)
  from assms have "\<bar>x\<bar> < 2 powi (e + 1)"
    unfolding e_def by (intro exponentOf_bounds(1)) simp
  then have "\<bar>x\<bar> / u < 2 powi (e + 1) / u"
    using upos by (rule divide_strict_right_mono)
  also have "2 powi (e + 1) / u = 2 powi (e + 1 - (e - 52))"
    unfolding u_def by (rule power_int_diff [symmetric]) simp
  also have "\<dots> = of_int (2 ^ 53)"
    by (simp add: power_int_def)
  finally have "n \<le> 2 ^ 53"
    unfolding n_def by (rule roundHalfEven_below)
  moreover have "0 \<le> n"
    unfolding n_def using upos by (intro roundHalfEven_nonneg) simp
  moreover have "nearestDouble x = sgn x * of_int n * 2 powi (exponentOf \<bar>x\<bar> - 52)"
    using assms by (simp add: nearestDouble_def Let_def n_def u_def e_def)
  ultimately show ?thesis
    by blast
qed

lemma exponentOf_small:
  assumes "0 < m" and "m < 2"
  shows "exponentOf m \<le> 0"
proof -
  define a where "a = fst (quotient_of m)"
  define b where "b = snd (quotient_of m)"
  have bpos: "0 < b"
    by (simp add: b_def quotient_of_denom_pos')
  have m: "m = of_int a / of_int b"
    by (rule quotient_of_div) (simp add: a_def b_def)
  from assms(2) bpos have "of_int a < (2 :: rat) * of_int b"
    by (simp add: m pos_divide_less_eq)
  then have ab: "a < 2 * b"
    by (metis of_int_less_iff of_int_mult of_int_numeral)
  have bb: "b < 2 ^ nat (bitlen b)"
    using bitlen_bounds [OF bpos] by simp
  have "nat (bitlen b + 1) = Suc (nat (bitlen b))"
    using bitlen_nonneg [of b] by simp
  then have "a < 2 ^ nat (bitlen b + 1)"
    using ab bb by simp
  then have "bitlen a \<le> bitlen b + 1"
    using bitlen_nonneg [of b] by (simp add: bitlen_le_iff_power)
  then have e0: "bitlen a - bitlen b \<le> 1"
    by simp
  have "bitlen a - bitlen b \<le> 0" if le: "(2 :: rat) powi (bitlen a - bitlen b) \<le> m"
  proof (rule ccontr)
    assume "\<not> bitlen a - bitlen b \<le> 0"
    then have "1 \<le> bitlen a - bitlen b"
      by simp
    then have "(2 :: rat) powi 1 \<le> 2 powi (bitlen a - bitlen b)"
      by (rule power_int_increasing) simp
    with le assms(2) show False
      by simp
  qed
  with e0 show ?thesis
    by (auto simp: exponentOf_def Let_def a_def b_def)
qed

lemma nearestDouble_near:
  assumes "\<bar>x\<bar> < 2"
  shows "\<bar>nearestDouble x - x\<bar> \<le> 1 / 2 ^ 53"
proof (cases "x = 0")
  case True
  then show ?thesis
    by (simp add: nearestDouble_def)
next
  case False
  define u :: rat where "u = 2 powi (exponentOf \<bar>x\<bar> - 52)"
  define n where "n = roundHalfEven (\<bar>x\<bar> / u)"
  have upos: "0 < u"
    by (simp add: u_def zero_less_power_int)
  from False assms have "exponentOf \<bar>x\<bar> \<le> 0"
    by (intro exponentOf_small) simp_all
  then have "u \<le> 2 powi (- 52)"
    unfolding u_def by (intro power_int_increasing) simp_all
  then have usmall: "u \<le> 1 / 2 ^ 52"
    by (simp add: power_int_minus field_simps)
  have "\<bar>of_int n - \<bar>x\<bar> / u\<bar> \<le> 1 / 2"
    unfolding n_def by (rule roundHalfEven_near)
  then have "\<bar>of_int n - \<bar>x\<bar> / u\<bar> * u \<le> 1 / 2 * u"
    using upos by (intro mult_right_mono) simp_all
  moreover have "\<bar>of_int n - \<bar>x\<bar> / u\<bar> * u = \<bar>of_int n * u - \<bar>x\<bar>\<bar>"
  proof -
    have "of_int n * u - \<bar>x\<bar> = (of_int n - \<bar>x\<bar> / u) * u"
      using upos by (simp add: field_simps)
    then have "\<bar>of_int n * u - \<bar>x\<bar>\<bar> = \<bar>(of_int n - \<bar>x\<bar> / u) * u\<bar>"
      by (rule arg_cong)
    also have "\<dots> = \<bar>of_int n - \<bar>x\<bar> / u\<bar> * u"
      using upos by (simp only: abs_mult abs_of_pos)
    finally show ?thesis
      by (rule sym)
  qed
  ultimately have near: "\<bar>of_int n * u - \<bar>x\<bar>\<bar> \<le> 1 / 2 ^ 53"
    using usmall by simp
  have nd: "nearestDouble x = sgn x * of_int n * u"
    using False by (simp add: nearestDouble_def Let_def n_def u_def)
  have "nearestDouble x - x = sgn x * (of_int n * u - \<bar>x\<bar>)"
    by (simp add: nd right_diff_distrib mult.assoc flip: mult_sgn_abs)
  then have "\<bar>nearestDouble x - x\<bar> = \<bar>of_int n * u - \<bar>x\<bar>\<bar>"
    using False by (simp add: abs_mult abs_sgn_eq)
  with near show ?thesis
    by simp
qed

lemma nearestDouble_nonneg: "0 \<le> x \<Longrightarrow> 0 \<le> nearestDouble x"
  by (auto simp: nearestDouble_def Let_def roundHalfEven_nonneg zero_less_power_int
      intro!: mult_nonneg_nonneg less_imp_le)

lemma roundDouble_small:
  assumes "\<bar>x\<bar> < 2"
  shows "roundDouble x = Num (nearestDouble x)"
proof -
  have "\<bar>nearestDouble x\<bar> \<le> \<bar>nearestDouble x - x\<bar> + \<bar>x\<bar>"
    by simp
  also have "\<dots> < 1 + 2"
    using nearestDouble_near [OF assms] assms by (intro add_le_less_mono) (auto intro: order_trans)
  also have "\<dots> \<le> ((2 :: rat) ^ 32) ^ 32"
    by simp
  finally show ?thesis
    by (simp add: roundDouble_def Let_def)
qed

section \<open>Reading back what toFixed wrote\<close>

lemma digitChar_isDigit: "isDigitChar (digitChar d)"
  by (simp add: digitChar_def isDigitChar_def)

lemma digitChar_value: "d < 10 \<Longrightarrow> of_char (digitChar d) - 48 = d"
  by (simp add: digitChar_def)

lemma showNat_digits: "list_all isDigitChar (showNat n)"
  by (induction n rule: showNat.induct) (subst showNat.simps, simp add: digitChar_isDigit)

lemma showNat_nonempty: "showNat n \<noteq> []"
  by (subst showNat.simps) simp

lemma digitsValue_snoc: "digitsValue (ds @ [c]) = 10 * digitsValue ds + (of_char c - 48)"
  by (simp add: digitsValue_def)

lemma digitsValue_showNat: "digitsValue (showNat n) = n"
proof (induction n rule: showNat.induct)
  case (1 n)
  show ?case
  proof (cases "n < 10")
    case True
    then show ?thesis
      by (subst showNat.simps) (simp add: digitsValue_def digitChar_value)
  next
    case False
    with 1 have "digitsValue (showNat (n div 10)) = n div 10"
      by simp
    with False show ?thesis
      by (subst showNat.simps) (simp add: digitsValue_snoc digitChar_value)
  qed
qed

lemma takeWhile_digits_dot:
  "list_all isDigitChar ds \<Longrightarrow> takeWhile isDigitChar (ds @ CHR ''.'' # rest) = ds"
  by (induction ds) (simp_all add: isDigitChar_def)

lemma dropWhile_digits_dot:
  "list_all isDigitChar ds \<Longrightarrow> dropWhile isDigitChar (ds @ CHR ''.'' # rest) = CHR ''.'' # rest"
  by (induction ds) (simp_all add: isDigitChar_def)

lemma parseFloat_digits:
  assumes "list_all isDigitChar ds" and "ds \<noteq> []" and "isDigitChar a" and "isDigitChar b"
  shows "parseFloat (ds @ CHR ''.'' # [a, b])
           = roundDouble (of_nat (digitsValue ds) + of_nat (digitsValue [a, b]) / 100)"
proof -
  from assms(2) obtain c cs where ds: "ds = c # cs"
    by (cases ds) auto
  with assms(1) have c: "isDigitChar c"
    by simp
  then have "\<not> isSpaceChar c" "c \<noteq> CHR ''-''" "c \<noteq> CHR ''+''" "c \<noteq> CHR ''I''"
    by (auto simp: isDigitChar_def isSpaceChar_def)
  then have start: "takeSign (dropWhile isSpaceChar (ds @ CHR ''.'' # [a, b]))
                      = (False, ds @ CHR ''.'' # [a, b])"
    and noinf: "take 8 (ds @ CHR ''.'' # [a, b]) \<noteq> ''Infinity''"
    by (simp_all add: ds takeSign_def)
  show ?thesis
    using assms(1,2,3,4) noinf
    by (simp add: parseFloat_def start takeWhile_digits_dot dropWhile_digits_dot
        exponentPart_def Let_def)
qed

lemma parseFloat_toFixed2:
  assumes "0 \<le> x"
  shows "parseFloat (toFixed2 x) = roundDouble (roundTo2 (nearestDouble x))"
proof -
  define d where "d = nearestDouble x"
  define n where "n = nat \<lfloor>\<bar>d\<bar> * 100 + 1 / 2\<rfloor>"
  have dpos: "0 \<le> d"
    unfolding d_def using assms by (rule nearestDouble_nonneg)
  then have fl: "0 \<le> \<lfloor>d * 100 + 1 / 2\<rfloor>"
    by simp
  have n: "int n = \<lfloor>d * 100 + 1 / 2\<rfloor>"
    using dpos fl by (simp add: n_def)
  have tf: "toFixed2 x = showNat (n div 100) @ CHR ''.'' # [digitChar (n div 10 mod 10), digitChar (n mod 10)]"
    using dpos by (simp add: toFixed2_def n_def d_def Let_def)
  have dv: "digitsValue [digitChar (n div 10 mod 10), digitChar (n mod 10)] = 10 * (n div 10 mod 10) + n mod 10"
    by (simp add: digitsValue_def digitChar_value)
  have "n mod (10 * 10) = 10 * (n div 10 mod 10) + n mod 10"
    by (rule mod_mult2_eq)
  then have "n mod 100 = 10 * (n div 10 mod 10) + n mod 10"
    by simp
  with mult_div_mod_eq [of 100 n]
  have split: "100 * (n div 100) + (10 * (n div 10 mod 10) + n mod 10) = n"
    by simp
  have "(of_nat (n div 100) :: rat) + of_nat (10 * (n div 10 mod 10) + n mod 10) / 100
          = of_nat (100 * (n div 100) + (10 * (n div 10 mod 10) + n mod 10)) / 100"
    by simp
  also have "\<dots> = of_nat n / 100"
    by (simp only: split)
  also have "\<dots> = roundTo2 d"
  proof -
    have "(of_nat n :: rat) = of_int (int n)"
      by simp
    then have "(of_nat n :: rat) = of_int \<lfloor>d * 100 + 1 / 2\<rfloor>"
      by (simp only: n)
    then show ?thesis
      by (simp only: roundTo2_def)
  qed
  finally have val: "(of_nat (n div 100) :: rat) + of_nat (10 * (n div 10 mod 10) + n mod 10) / 100
          = roundTo2 d" .
  show ?thesis
    using parseFloat_digits [OF showNat_digits showNat_nonempty digitChar_isDigit digitChar_isDigit,
        of "n div 100" "n div 10 mod 10" "n mod 10"]
    by (simp only: tf dv digitsValue_showNat val d_def)
qed

lemma toFixed2_nonempty: "toFixed2 x \<noteq> []"
  by (simp add: toFixed2_def Let_def showNat_nonempty)

lemma roundTo2_near: "\<bar>roundTo2 x - x\<bar> \<le> 1 / 200"
proof -
  define f :: rat where "f = of_int \<lfloor>x * 100 + 1 / 2\<rfloor>"
  have "f \<le> x * 100 + 1 / 2" and "x * 100 + 1 / 2 < f + 1"
    unfolding f_def by linarith+
  then have "f / 100 - x \<le> 1 / 200 \<and> - (f / 100 - x) \<le> 1 / 200"
    by linarith
  then have "\<bar>f / 100 - x\<bar> \<le> 1 / 200"
    by (simp only: abs_le_iff)
  then show ?thesis
    by (simp only: roundTo2_def f_def)
qed

section \<open>Applying a ratio twice\<close>

text \<open>
  C8, as stated, fails: the guard of \<open>applyRTLStyles\<close> compares the new ratio with the
  two-decimal text in the ratio attribute, not with the ratio applied before. The ratios
  0.347 and 0.338 differ by 0.009, also in the engine's arithmetic; the first
  application records \<open>"0.35"\<close>, which is 0.012 away from 0.338, so the second
  application writes again and the ratio attribute becomes \<open>"0.34"\<close>.
\<close>

theorem close_ratios_rewritten_counterexample:
  "\<bar>(347 / 1000 :: rat) - 338 / 1000\<bar> < 1 / 100
   \<and> differsByLessThan001 (Num (nearestDouble (347 / 1000))) (338 / 1000)
   \<and> attrs (applyRTLStyles (makeConfig noOptions) (blankElement ''P'' marhaba) (347 / 1000))
         ''data-arabic-ratio'' = Some ''0.35''
   \<and> attrs (applyRTLStyles (makeConfig noOptions)
           (applyRTLStyles (makeConfig noOptions) (blankElement ''P'' marhaba) (347 / 1000))
           (338 / 1000))
         ''data-arabic-ratio'' = Some ''0.34''"
  by code_simp

lemma applied_then_close:
  assumes "0 \<le> r1" and "\<not> ratioAlreadyApplied e r1"
    and "differsByLessThan001 (roundDouble (roundTo2 (nearestDouble r1))) r2"
  shows "applyRTLStyles cfg (applyRTLStyles cfg e r1) r2 = applyRTLStyles cfg e r1"
proof (cases "hasLtrOverride e")
  case True
  then show ?thesis
    by (simp add: applyRTLStyles_def)
next
  case False
  define e1 where "e1 = applyRTLStyles cfg e r1"
  have e1: "e1 = e\<lparr> style := assignStyles cfg e r1,
                     attrs := (attrs e)(''data-rtl-applied'' \<mapsto> ''true'',
                                        ''data-arabic-ratio'' \<mapsto> toFixed2 r1) \<rparr>"
    using False assms(2) by (simp add: e1_def applyRTLStyles_def)
  have "attrs e1 ''data-arabic-ratio'' = Some (toFixed2 r1)"
    by (simp add: e1)
  then have "ratioAlreadyApplied e1 r2"
    using assms(1,3) by (simp add: ratioAlreadyApplied_def toFixed2_nonempty parseFloat_toFixed2)
  then have "applyRTLStyles cfg e1 r2 = e1"
    by (simp add: applyRTLStyles_def)
  then show ?thesis
    by (simp only: e1_def)
qed

lemma near_ratios_pass_guard:
  assumes "0 \<le> r1" and "r1 \<le> 1" and "\<bar>r1 - r2\<bar> \<le> 1 / 250"
  shows "differsByLessThan001 (roundDouble (roundTo2 (nearestDouble r1))) r2"
proof -
  define d1 where "d1 = nearestDouble r1"
  define d2 where "d2 = nearestDouble r2"
  define t where "t = roundTo2 d1"
  define v where "v = nearestDouble t"
  define d where "d = nearestDouble (v - d2)"
  define c where "c = nearestDouble (1 / 100)"
  have eps: "(1 :: rat) / 2 ^ 53 \<le> 1 / 100000"
    by simp
  have e1: "\<bar>d1 - r1\<bar> \<le> 1 / 100000"
    unfolding d1_def using nearestDouble_near [of r1] assms(1,2) eps by linarith
  have e2: "\<bar>d2 - r2\<bar> \<le> 1 / 100000"
    unfolding d2_def using nearestDouble_near [of r2] assms eps by linarith
  have d1pos: "0 \<le> d1"
    unfolding d1_def using assms(1) by (rule nearestDouble_nonneg)
  have et: "\<bar>t - d1\<bar> \<le> 1 / 200"
    unfolding t_def by (rule roundTo2_near)
  have tsmall: "\<bar>t\<bar> < 2"
    using et e1 d1pos assms(1,2) by linarith
  have ev: "\<bar>v - t\<bar> \<le> 1 / 100000"
    unfolding v_def using nearestDouble_near [OF tsmall] eps by linarith
  have rt: "roundDouble t = Num v"
    unfolding v_def using tsmall by (rule roundDouble_small)
  have x: "\<bar>v - d2\<bar> \<le> 1 / 200 + 1 / 250 + 3 / 100000"
    using ev et e1 e2 assms(3) by linarith
  then have xsmall: "\<bar>v - d2\<bar> < 2"
    by linarith
  have ed: "\<bar>d - (v - d2)\<bar> \<le> 1 / 100000"
    unfolding d_def using nearestDouble_near [OF xsmall] eps by linarith
  have rx: "roundDouble (v - d2) = Num d"
    unfolding d_def using xsmall by (rule roundDouble_small)
  have "\<bar>c - 1 / 100\<bar> \<le> 1 / 100000"
    unfolding c_def using nearestDouble_near [of "1 / 100"] eps by simp
  with x ed have "\<bar>d\<bar> < c"
    by linarith
  then show ?thesis
    by (simp add: differsByLessThan001_def rt rx
        flip: d1_def d2_def t_def v_def c_def)
qed

text \<open>
  C8, amended. For every node and every pair of ratio applications whose first ratio
  lies in [0, 1] and is applied (the node does not already carry a ratio within 0.01
  of it): the second application leaves the node, its style properties and its
  attributes, exactly as the first left it whenever the second ratio differs by less
  than 0.01, in the engine's double arithmetic, from the number read back from the
  ratio attribute, which holds the first ratio printed with two decimals; in particular
  whenever the two ratios differ by at most 0.004.
\<close>

theorem second_application_within_recorded_ratio:
  assumes "0 \<le> r1" and "r1 \<le> 1" and "\<not> ratioAlreadyApplied e r1"
  shows "(differsByLessThan001 (roundDouble (roundTo2 (nearestDouble r1))) r2 \<longrightarrow>
            applyRTLStyles cfg (applyRTLStyles cfg e r1) r2 = applyRTLStyles cfg e r1)
         \<and> (\<bar>r1 - r2\<bar> \<le> 1 / 250 \<longrightarrow>
            applyRTLStyles cfg (applyRTLStyles cfg e r1) r2 = applyRTLStyles cfg e r1)"
  using applied_then_close [OF assms(1,3)] near_ratios_pass_guard [OF assms(1,2)]
  by blast

theorem second_application_within_recorded_ratio_witness:
  "(0 :: rat) \<le> 347 / 1000 \<and> (347 / 1000 :: rat) \<le> 1
   \<and> \<not> ratioAlreadyApplied (blankElement ''P'' marhaba) (347 / 1000)
   \<and> differsByLessThan001 (roundDouble (roundTo2 (nearestDouble (347 / 1000)))) (355 / 1000)
   \<and> \<bar>(347 / 1000 :: rat) - 350 / 1000\<bar> \<le> 1 / 250
   \<and> attrs (applyRTLStyles (makeConfig noOptions) (blankElement ''P'' marhaba) (347 / 1000))
         ''data-arabic-ratio'' = Some ''0.35''
   \<and> applyRTLStyles (makeConfig noOptions)
         (applyRTLStyles (makeConfig noOptions) (blankElement ''P'' marhaba) (347 / 1000))
         (355 / 1000)
       = applyRTLStyles (makeConfig noOptions) (blankElement ''P'' marhaba) (347 / 1000)
   \<and> applyRTLStyles (makeConfig noOptions)
         (applyRTLStyles (makeConfig noOptions) (blankElement ''P'' marhaba) (347 / 1000))
         (350 / 1000)
       = applyRTLStyles (makeConfig noOptions) (blankElement ''P'' marhaba) (347 / 1000)"
proof -
  have h1: "(0 :: rat) \<le> 347 / 1000" and h2: "(347 / 1000 :: rat) \<le> 1"
    and h5: "\<bar>(347 / 1000 :: rat) - 350 / 1000\<bar> \<le> 1 / 250"
    by simp_all
  have h3: "\<not> ratioAlreadyApplied (blankElement ''P'' marhaba) (347 / 1000)"
    by (simp add: ratioAlreadyApplied_def blankElement_def)
  have h4: "differsByLessThan001 (roundDouble (roundTo2 (nearestDouble (347 / 1000)))) (355 / 1000)"
    by code_simp
  have h6: "attrs (applyRTLStyles (makeConfig noOptions) (blankElement ''P'' marhaba) (347 / 1000))
         ''data-arabic-ratio'' = Some ''0.35''"
    by code_simp
  note t = second_application_within_recorded_ratio [OF h1 h2 h3, where cfg = "makeConfig noOptions"]
  from t [where ?r2.0 = "355 / 1000"] h4
  have a: "applyRTLStyles (makeConfig noOptions)
         (applyRTLStyles (makeConfig noOptions) (blankElement ''P'' marhaba) (347 / 1000))
         (355 / 1000)
       = applyRTLStyles (makeConfig noOptions) (blankElement ''P'' marhaba) (347 / 1000)"
    by blast
  from t [where ?r2.0 = "350 / 1000"] h5
  have b: "applyRTLStyles (makeConfig noOptions)
         (applyRTLStyles (makeConfig noOptions) (blankElement ''P'' marhaba) (347 / 1000))
         (350 / 1000)
       = applyRTLStyles (makeConfig noOptions) (blankElement ''P'' marhaba) (347 / 1000)"
    by blast
  from h1 h2 h3 h4 h5 h6 a b show ?thesis
    by blast
qed

section \<open>Evaluated runs\<close>

text \<open>
  The sample runs, evaluated once each: the snapshot of the state they end in. The
  theorems on these runs read their facts off these snapshots.
\<close>

lemma snapshot_before_disable:
  "snapshot (run sampleLetters twoParagraphs
       [HandleMutations [CharacterData (ElementNode 1)], ScanDOM Document, AnimationFrame 1])
     = ((True, True, Some [CharacterData (ElementNode 1)], [([1, 2], 1)]),
        (True, True, Some marhaba, Some marhaba, Some ''true'', Some ''1.00''),
        (False, False, None, Some marhaba, None, None))"
  by code_simp

lemma snapshot_disabledMidBatch:
  "snapshot disabledMidBatch
     = ((False, False, None, [([1, 2], 1)]),
        (False, False, None, Some marhaba, None, None),
        (False, False, None, Some marhaba, None, None))"
  by code_simp

lemma snapshot_after_pending_slice:
  "snapshot (step sampleLetters disabledMidBatch (AnimationFrame 1))
     = ((False, False, None, []),
        (False, False, None, Some marhaba, None, None),
        (True, True, Some marhaba, Some marhaba, Some ''true'', Some ''1.00''))"
  by code_simp

lemma snapshot_window_fired:
  "snapshot (run sampleLetters twoParagraphs
       [HandleMutations [ChildList [ElementNode 1]], HandleMutations [ChildList [ElementNode 2]],
        TimerFires])
     = ((True, True, None, [([2], 0)]),
        (False, False, None, Some marhaba, None, None),
        (False, False, None, Some marhaba, None, None))"
  by code_simp

lemma snapshot_afterTwoBatches:
  "snapshot afterTwoBatches
     = ((True, False, None, []),
        (False, False, None, Some marhaba, None, None),
        (True, True, Some marhaba, Some marhaba, Some ''true'', Some ''1.00''))"
  by code_simp

lemma affected_of_two_batches:
  "accumulatedAffected_spec twoParagraphs
       [[ChildList [ElementNode 1]], [ChildList [ElementNode 2]]] = [1, 2]"
  by code_simp

lemma snapshot_bothProcessed:
  "snapshot bothProcessed
     = ((True, False, None, []),
        (True, True, Some marhaba, Some marhaba, Some ''true'', Some ''1.00''),
        (True, True, Some marhaba, Some marhaba, Some ''true'', Some ''1.00''))"
  by code_simp

lemma scan_of_bothProcessed: "fst (getTargetElements bothProcessed Document) = []"
  by code_simp

lemma snapshot_moved_batched:
  "snapshot (run sampleLetters bothProcessed
       [HandleMutations [ChildList [ElementNode 1]], TimerFires])
     = ((True, True, None, [([1], 0)]),
        (True, True, Some marhaba, Some marhaba, Some ''true'', Some ''1.00''),
        (True, True, Some marhaba, Some marhaba, Some ''true'', Some ''1.00''))"
  by code_simp

lemma snapshot_moved_processed:
  "snapshot (run sampleLetters bothProcessed
       [HandleMutations [ChildList [ElementNode 1]], TimerFires, AnimationFrame 1])
     = ((True, False, None, []),
        (True, True, Some marhaba, Some marhaba, Some ''true'', Some ''1.00''),
        (True, True, Some marhaba, Some marhaba, Some ''true'', Some ''1.00''))"
  by code_simp

lemma snapshot_overrideRemoved:
  "snapshot overrideRemoved
     = ((True, False, None, []),
        (False, True, Some marhaba, Some marhaba, None, None),
        (False, False, None, None, None, None))"
  by code_simp

lemma snapshot_overrideRemoved_rescan:
  "snapshot (run sampleLetters overrideRemoved [ScanDOM Document, AnimationFrame 1])
     = ((True, False, None, []),
        (False, True, Some marhaba, Some marhaba, None, None),
        (False, False, None, None, None, None))"
  by code_simp

lemma snapshot_overrideRemoved_moved:
  "snapshot (run sampleLetters overrideRemoved
       [HandleMutations [ChildList [ElementNode 1]], TimerFires, AnimationFrame 1])
     = ((True, False, None, []),
        (True, True, Some marhaba, Some marhaba, Some ''true'', Some ''1.00''),
        (False, False, None, None, None, None))"
  by code_simp

section \<open>Debouncing\<close>

lemma handleMutations_window:
  assumes "isEnabled w" and "\<not> isProcessing w" and "batches \<noteq> []"
  shows "foldl handleMutations w batches = w\<lparr>debounceTimer := Some (last batches)\<rparr>"
  using assms(3,1,2)
proof (induction batches rule: rev_nonempty_induct)
  case (single b)
  then show ?case
    by (simp add: handleMutations_def)
next
  case (snoc b bs)
  then show ?case
    by (simp add: handleMutations_def)
qed

lemma flags_keepElement:
  "isProcessing (snd (keepElement w n)) = isProcessing w
   \<and> rafQueue (snd (keepElement w n)) = rafQueue w"
  by (simp add: keepElement_def getElementText_def Let_def split: option.splits)

lemma flags_filterElements:
  "isProcessing (snd (filterElements w ns)) = isProcessing w
   \<and> rafQueue (snd (filterElements w ns)) = rafQueue w"
proof (induction ns arbitrary: w)
  case Nil
  show ?case by simp
next
  case (Cons n ns)
  have "isProcessing (snd (filterElements (snd (keepElement w n)) ns)) = isProcessing w
      \<and> rafQueue (snd (filterElements (snd (keepElement w n)) ns)) = rafQueue w"
    by (simp add: Cons.IH flags_keepElement)
  then show ?case
    by (simp add: case_prod_beta Let_def)
qed

lemma flags_addedNode:
  "isProcessing (fst (addedNode acc node)) = isProcessing (fst acc)
   \<and> rafQueue (fst (addedNode acc node)) = rafQueue (fst acc)"
  by (cases acc; cases node)
     (simp_all add: case_prod_beta getTargetElements_def flags_filterElements)

lemma flags_changedTarget:
  "isProcessing (fst (changedTarget acc target)) = isProcessing (fst acc)
   \<and> rafQueue (fst (changedTarget acc target)) = rafQueue (fst acc)"
  by (cases "(acc, target)" rule: changedTarget.cases; cases acc) simp_all

lemma flags_mutationStep:
  "isProcessing (fst (mutationStep acc m)) = isProcessing (fst acc)
   \<and> rafQueue (fst (mutationStep acc m)) = rafQueue (fst acc)"
  by (cases m)
     (simp_all add: flags_changedTarget flags_addedNode
        foldl_keeps [where g = "\<lambda>a. isProcessing (fst a)"]
        foldl_keeps [where g = "\<lambda>a. rafQueue (fst a)"])

lemma flags_collectMutations:
  "isProcessing (fst (collectMutations w ms)) = isProcessing w
   \<and> rafQueue (fst (collectMutations w ms)) = rafQueue w"
  by (simp add: collectMutations_def flags_mutationStep
        foldl_keeps [where g = "\<lambda>a. isProcessing (fst a)"]
        foldl_keeps [where g = "\<lambda>a. rafQueue (fst a)"])

text \<open>
  What the code does with the batches of one debounce window (the engine enabled and no
  batch being processed): when the delay elapses it runs \<open>processMutations\<close> on the last
  batch alone, since each call of \<open>handleMutations\<close> replaces the timeout and the closure
  of the new one holds that call's records only.
\<close>

lemma timer_fires_on_last_batch:
  assumes "isEnabled w" and "\<not> isProcessing w" and "batches \<noteq> []"
  shows "timerFires (foldl handleMutations w batches)
           = processMutations (w\<lparr>debounceTimer := None\<rparr>) (last batches)
         \<and> (snd (collectMutations (w\<lparr>debounceTimer := None\<rparr>) (last batches)) \<noteq> [] \<longrightarrow>
              rafQueue (timerFires (foldl handleMutations w batches))
                = rafQueue w @ [(snd (collectMutations (w\<lparr>debounceTimer := None\<rparr>) (last batches)), 0)])"
proof -
  let ?w = "w\<lparr>debounceTimer := None\<rparr>"
  have fire: "timerFires (foldl handleMutations w batches) = processMutations ?w (last batches)"
    by (simp add: handleMutations_window [OF assms] timerFires_def)
  have "rafQueue (processMutations ?w ms) = rafQueue w @ [(snd (collectMutations ?w ms), 0)]"
    if "snd (collectMutations ?w ms) \<noteq> []" for ms
    using that assms(2) flags_collectMutations [of ?w ms]
    by (simp add: processMutations_def case_prod_beta processElementsBatch_def)
  with fire show ?thesis
    by simp
qed

text \<open>
  C4 says that once the delay elapses the set forwarded to the batch scheduler is the
  union of the affected nodes of all the batches of the window. The code, at the input
  \<open>afterTwoBatches\<close>: the two batches together affect nodes 1 and 2, the scheduler
  receives node 2 alone, and when everything has run node 2 is processed and styled
  while node 1, inserted by the earlier batch, has never been processed.
\<close>

theorem earlier_batch_of_window_is_lost:
  "accumulatedAffected_spec twoParagraphs
       [[ChildList [ElementNode 1]], [ChildList [ElementNode 2]]] = [1, 2]
   \<and> rafQueue (run sampleLetters twoParagraphs
         [HandleMutations [ChildList [ElementNode 1]], HandleMutations [ChildList [ElementNode 2]],
          TimerFires]) = [([2], 0)]
   \<and> rafQueue afterTwoBatches = []
   \<and> debounceTimer afterTwoBatches = None
   \<and> \<not> isProcessing afterTwoBatches
   \<and> isStyled afterTwoBatches 2
   \<and> 2 \<in> processedElements afterTwoBatches
   \<and> \<not> isStyled afterTwoBatches 1
   \<and> 1 \<notin> processedElements afterTwoBatches
   \<and> textCache afterTwoBatches 1 = None"
  using snapshot_window_fired snapshot_afterTwoBatches affected_of_two_batches
  by (auto simp: snapshot_def engineState_def nodeState_def split: option.splits)

section \<open>Disabling in the middle of a batch\<close>

text \<open>
  C2 says that after \<open>disable\<close> the pending debounce timer is cancelled and no further
  slice of a batch in progress begins while the engine stays disabled. The code, at the
  input \<open>disabledMidBatch\<close>: \<open>disable\<close> cancels the debounce timer, but the
  \<open>processChunk\<close> given to \<open>requestAnimationFrame\<close> stays pending and does not look at
  \<open>isEnabled\<close>; on the next frame a new slice starts and styles the second paragraph,
  with the engine disabled.
\<close>

theorem slice_starts_after_disable:
  "debounceTimer (run sampleLetters twoParagraphs
       [HandleMutations [CharacterData (ElementNode 1)], ScanDOM Document, AnimationFrame 1])
     = Some [CharacterData (ElementNode 1)]
   \<and> debounceTimer disabledMidBatch = None
   \<and> \<not> isEnabled disabledMidBatch
   \<and> rafQueue disabledMidBatch = [([1, 2], 1)]
   \<and> \<not> isStyled disabledMidBatch 2
   \<and> 2 \<notin> processedElements disabledMidBatch
   \<and> \<not> isEnabled (step sampleLetters disabledMidBatch (AnimationFrame 1))
   \<and> isStyled (step sampleLetters disabledMidBatch (AnimationFrame 1)) 2
   \<and> 2 \<in> processedElements (step sampleLetters disabledMidBatch (AnimationFrame 1))"
  using snapshot_before_disable snapshot_disabledMidBatch snapshot_after_pending_slice
  by (auto simp: snapshot_def engineState_def nodeState_def split: option.splits)

text \<open>
  C3 says that after \<open>disable\<close> and the quiescence that follows, no node carries the
  marker or the ratio attribute, and the cache and processed entries are cleared. The
  code, at the same input: right after \<open>disable\<close> no node carries the marker; once the
  pending slice has run nothing is pending any more, the engine is still disabled, and
  the second paragraph carries the marker and the ratio attribute and is back in the
  processed set and the cache.
\<close>

theorem marker_present_after_disable_and_quiescence:
  "\<not> isStyled disabledMidBatch 1 \<and> \<not> isStyled disabledMidBatch 2
   \<and> rafQueue (step sampleLetters disabledMidBatch (AnimationFrame 1)) = []
   \<and> debounceTimer (step sampleLetters disabledMidBatch (AnimationFrame 1)) = None
   \<and> \<not> isEnabled (step sampleLetters disabledMidBatch (AnimationFrame 1))
   \<and> map_option (\<lambda>e. (attrs e ''data-rtl-applied'', attrs e ''data-arabic-ratio''))
        (elems (step sampleLetters disabledMidBatch (AnimationFrame 1)) 2)
      = Some (Some ''true'', Some ''1.00'')
   \<and> 2 \<in> processedElements (step sampleLetters disabledMidBatch (AnimationFrame 1))
   \<and> textCache (step sampleLetters disabledMidBatch (AnimationFrame 1)) 2 = Some marhaba"
  using snapshot_disabledMidBatch snapshot_after_pending_slice
  by (auto simp: snapshot_def engineState_def nodeState_def split: option.splits)

section \<open>A processed node that is inserted again\<close>

text \<open>
  C5 says that on every path a node is reprocessed only if its text differs from the
  cached text or it has never been processed. The code, at the input \<open>bothProcessed\<close>:
  node 1 has been processed and its text is the cached text, so a scan selects nothing.
  The page moves node 1 (a \<open>childList\<close> record naming it as added): \<open>processMutations\<close>
  adds the inserted node without any test, the batch scheduler gets it, and the next
  slice runs \<open>processElement\<close> on it. At the input \<open>overrideRemoved\<close> the second
  processing shows on the page: the paragraph is processed and its text is the cached
  text, a rescan leaves it unstyled, and moving it gets it classified and styled.
\<close>

theorem reinserted_node_is_reprocessed:
  "1 \<in> processedElements bothProcessed
   \<and> map_option elementText (elems bothProcessed 1) = textCache bothProcessed 1
   \<and> textCache bothProcessed 1 = Some marhaba
   \<and> \<not> isProcessing bothProcessed
   \<and> fst (getTargetElements bothProcessed Document) = []
   \<and> rafQueue (run sampleLetters bothProcessed
        [HandleMutations [ChildList [ElementNode 1]], TimerFires]) = [([1], 0)]
   \<and> isProcessing (run sampleLetters bothProcessed
        [HandleMutations [ChildList [ElementNode 1]], TimerFires])
   \<and> rafQueue (run sampleLetters bothProcessed
        [HandleMutations [ChildList [ElementNode 1]], TimerFires, AnimationFrame 1]) = []
   \<and> 1 \<in> processedElements overrideRemoved
   \<and> map_option elementText (elems overrideRemoved 1) = textCache overrideRemoved 1
   \<and> \<not> isStyled overrideRemoved 1
   \<and> \<not> isStyled (run sampleLetters overrideRemoved [ScanDOM Document, AnimationFrame 1]) 1
   \<and> isStyled (run sampleLetters overrideRemoved
        [HandleMutations [ChildList [ElementNode 1]], TimerFires, AnimationFrame 1]) 1"
  using snapshot_bothProcessed scan_of_bothProcessed snapshot_moved_batched
    snapshot_moved_processed snapshot_overrideRemoved snapshot_overrideRemoved_rescan
    snapshot_overrideRemoved_moved
  by (auto simp: snapshot_def engineState_def nodeState_def split: option.splits)

section \<open>What a scan selects, and what disable leaves\<close>

text \<open>
  On the scan path the filter of \<open>getTargetElements\<close> never selects a node that is in the
  processed set and has a cache entry: \<open>getElementText\<close> overwrites the entry just before
  the comparison reads it, so the two texts are always equal there.
\<close>

lemma keepElement_selects:
  "fst (keepElement w n) \<Longrightarrow> \<not> (n \<in> processedElements w \<and> textCache w n \<noteq> None)"
  by (auto simp: keepElement_def getElementText_def Let_def split: option.splits if_splits)

lemma keepElement_preserves:
  "processedElements (snd (keepElement w m)) = processedElements w
   \<and> (textCache (snd (keepElement w m)) k = None) = (textCache w k = None)"
  by (auto simp: keepElement_def getElementText_def Let_def split: option.splits)

lemma filterElements_selects:
  "n \<in> set (fst (filterElements w ns))
     \<Longrightarrow> \<not> (n \<in> processedElements w \<and> textCache w n \<noteq> None)"
proof (induction ns arbitrary: w)
  case Nil
  then show ?case by simp
next
  case (Cons m ns)
  let ?w1 = "snd (keepElement w m)"
  from Cons.prems have "(fst (keepElement w m) \<and> n = m) \<or> n \<in> set (fst (filterElements ?w1 ns))"
    by (auto simp: case_prod_beta Let_def split: if_splits)
  then show ?case
  proof
    assume "fst (keepElement w m) \<and> n = m"
    then show ?thesis
      using keepElement_selects [of w m] by simp
  next
    assume "n \<in> set (fst (filterElements ?w1 ns))"
    then have "\<not> (n \<in> processedElements ?w1 \<and> textCache ?w1 n \<noteq> None)"
      by (rule Cons.IH)
    then show ?thesis
      using keepElement_preserves [of w m n] by simp
  qed
qed

lemma scan_selects_only_unprocessed:
  "n \<in> set (fst (getTargetElements w r))
     \<Longrightarrow> \<not> (n \<in> processedElements w \<and> textCache w n \<noteq> None)"
  by (simp only: getTargetElements_def) (rule filterElements_selects)

text \<open>
  When \<open>disable\<close> returns, no element of the document carries the marker with the value
  \<open>true\<close>, and the elements that carried it are out of the processed set and the cache.
\<close>

lemma removeRTL_unstyles: "\<not> isStyled (removeRTL w n) n"
  by (simp add: isStyled_def removeRTL_def split: option.splits)

lemma removeRTL_keeps_unstyled: "\<not> isStyled w n \<Longrightarrow> \<not> isStyled (removeRTL w m) n"
  by (cases "m = n") (simp_all add: removeRTL_unstyles, simp add: isStyled_def removeRTL_def split: option.splits)

lemma foldl_removeRTL_keeps_unstyled:
  "\<not> isStyled w n \<Longrightarrow> \<not> isStyled (foldl removeRTL w xs) n"
  by (induction xs arbitrary: w) (simp_all add: removeRTL_keeps_unstyled)

lemma foldl_removeRTL_unstyles:
  "n \<in> set xs \<Longrightarrow> \<not> isStyled (foldl removeRTL w xs) n"
proof (induction xs arbitrary: w)
  case Nil
  then show ?case by simp
next
  case (Cons x xs)
  show ?case
  proof (cases "n = x")
    case True
    then show ?thesis
      by (simp add: foldl_removeRTL_keeps_unstyled removeRTL_unstyles)
  next
    case False
    with Cons show ?thesis by simp
  qed
qed

lemma removeRTL_forgets:
  "n \<notin> processedElements w \<and> textCache w n = None
     \<Longrightarrow> n \<notin> processedElements (removeRTL w m) \<and> textCache (removeRTL w m) n = None"
  by (simp add: removeRTL_def split: option.splits)

lemma removeRTL_forgets_own:
  "elems w n \<noteq> None \<Longrightarrow> n \<notin> processedElements (removeRTL w n) \<and> textCache (removeRTL w n) n = None"
  by (auto simp: removeRTL_def)

lemma foldl_removeRTL_forgets_kept:
  "n \<notin> processedElements w \<and> textCache w n = None
     \<Longrightarrow> n \<notin> processedElements (foldl removeRTL w xs) \<and> textCache (foldl removeRTL w xs) n = None"
  by (induction xs arbitrary: w) (simp_all add: removeRTL_forgets)

lemma elems_removeRTL_defined: "(elems (removeRTL w m) n = None) = (elems w n = None)"
  by (simp add: removeRTL_def split: option.splits)

lemma foldl_removeRTL_forgets:
  "n \<in> set xs \<Longrightarrow> elems w n \<noteq> None
     \<Longrightarrow> n \<notin> processedElements (foldl removeRTL w xs) \<and> textCache (foldl removeRTL w xs) n = None"
proof (induction xs arbitrary: w)
  case Nil
  then show ?case by simp
next
  case (Cons x xs)
  show ?case
  proof (cases "n = x")
    case True
    with Cons.prems(2) show ?thesis
      using foldl_removeRTL_forgets_kept [OF removeRTL_forgets_own, of w n xs] by simp
  next
    case False
    with Cons.prems have "n \<in> set xs" and "elems (removeRTL w x) n \<noteq> None"
      by (simp_all add: elems_removeRTL_defined)
    then show ?thesis
      using Cons.IH [of "removeRTL w x"] by simp
  qed
qed

lemma disable_leaves_no_marker:
  assumes "n \<in> set (docOrder w)"
  shows "\<not> isStyled (disable w) n
         \<and> (isStyled w n \<longrightarrow> n \<notin> processedElements (disable w) \<and> textCache (disable w) n = None)"
proof -
  let ?w = "w\<lparr>isEnabled := False, isProcessing := False, debounceTimer := None\<rparr>"
  have styled: "isStyled ?w n = isStyled w n"
    by (simp add: isStyled_def)
  have mem: "n \<in> set (rtlElements ?w) \<longleftrightarrow> isStyled w n"
    using assms by (auto simp: rtlElements_def isStyled_def split: option.splits)
  have "\<not> isStyled (foldl removeRTL ?w (rtlElements ?w)) n"
  proof (cases "isStyled w n")
    case True
    with mem show ?thesis
      by (simp add: foldl_removeRTL_unstyles)
  next
    case False
    with styled show ?thesis
      by (simp add: foldl_removeRTL_keeps_unstyled)
  qed
  moreover have "n \<notin> processedElements (foldl removeRTL ?w (rtlElements ?w))
      \<and> textCache (foldl removeRTL ?w (rtlElements ?w)) n = None" if "isStyled w n"
  proof -
    from that have "elems ?w n \<noteq> None"
      by (auto simp: isStyled_def split: option.splits)
    with that mem show ?thesis
      by (intro foldl_removeRTL_forgets) simp_all
  qed
  ultimately show ?thesis
    by (simp add: disable_def removeAllRTLStyles_def)
qed

text \<open>
  \<open>disable\<close> cancels the debounce timer and clears the flags, and leaves every pending
  \<open>processChunk\<close> where it is.
\<close>

lemma disable_keeps_pending_slices:
  "rafQueue (disable w) = rafQueue w \<and> debounceTimer (disable w) = None
   \<and> \<not> isEnabled (disable w) \<and> \<not> isProcessing (disable w)"
proof -
  have q: "rafQueue (removeRTL a n) = rafQueue a" and t: "debounceTimer (removeRTL a n) = debounceTimer a"
    and e: "isEnabled (removeRTL a n) = isEnabled a" and p: "isProcessing (removeRTL a n) = isProcessing a"
    for a n
    by (simp_all add: removeRTL_def split: option.splits)
  show ?thesis
    by (simp add: disable_def removeAllRTLStyles_def
        foldl_keeps [where g = rafQueue, OF q] foldl_keeps [where g = debounceTimer, OF t]
        foldl_keeps [where g = isEnabled, OF e] foldl_keeps [where g = isProcessing, OF p])
qed

end
